theory Spec2Isabelle
  imports Complex_Main
begin

section \<open>JSON values\<close>

text \<open>
  The server of \<^verbatim>\<open>App.tsx\<close> receives request bodies parsed by \<^verbatim>\<open>express.json()\<close> and
  answers with \<^verbatim>\<open>res.json(...)\<close>. A JavaScript value that can occur in either place is a
  \<open>jsval\<close>. A number is a double. The server never computes with a number, it only
  copies it, so a finite number is carried as the real it denotes; negative zero and
  the two infinities, which \<^verbatim>\<open>JSON.parse\<close> returns for \<^verbatim>\<open>-0\<close> and for a literal out of
  range such as \<^verbatim>\<open>1e309\<close>, are values of their own (JSON has no NaN). A string is the
  list of its UTF-16 code units, so that it can hold an unpaired surrogate (the escape
  \<^verbatim>\<open>"\ud800"\<close> of JSON); \<open>js\<close> writes a string of the program text as such a list.
\<close>

datatype jsnum = Finite real | NegZero | PosInfinity | NegInfinity

type_synonym jsstring = "nat list"

definition js :: "string \<Rightarrow> jsstring" where
  "js s = map of_char s"

datatype jsval =
    JUndefined
  | JNull
  | JBool bool
  | JNumber jsnum
  | JStr jsstring
  | JArr "jsval list"
  | JObj "(string \<times> jsval) list"

abbreviation JNum :: "real \<Rightarrow> jsval" where
  "JNum x \<equiv> JNumber (Finite x)"

text \<open>A parsed body, as the handlers can read it: the value under each key. The keys
  the handlers read are ASCII, and a key is written as an Isabelle string.\<close>

type_synonym jsobject = "string \<rightharpoonup> jsval"

text \<open>Reading a property, as the destructuring \<^verbatim>\<open>const { a, b } = req.body\<close> does: an
  absent key reads as \<^verbatim>\<open>undefined\<close>.\<close>

definition get_prop :: "jsobject \<Rightarrow> string \<Rightarrow> jsval" where
  "get_prop b k = (case b k of None \<Rightarrow> JUndefined | Some v \<Rightarrow> v)"

text \<open>\<^verbatim>\<open>res.json({k: v, ...})\<close>: serialisation drops the keys whose value is
  \<^verbatim>\<open>undefined\<close>.\<close>

definition json :: "(string \<times> jsval) list \<Rightarrow> jsval" where
  "json kvs = JObj (filter (\<lambda>kv. snd kv \<noteq> JUndefined) kvs)"

text \<open>JavaScript truthiness of \<^verbatim>\<open>req.session.userId\<close>, an optional number.\<close>

fun truthy :: "nat option \<Rightarrow> bool" where
  "truthy None = False"
| "truthy (Some n) = (n \<noteq> 0)"


section \<open>The libraries the server calls\<close>

text \<open>
  \<^verbatim>\<open>better-sqlite3\<close>, SQLite, \<^verbatim>\<open>bcryptjs\<close> and \<^verbatim>\<open>express-session\<close> are not part of the
  repository. Their behaviour at the calls the server makes is written out here. Three
  functions are left open and passed as a parameter \<open>deps\<close>, so that every theorem holds
  whatever they compute:
  \<^item> \<open>compare_str p h\<close>: \<^verbatim>\<open>bcrypt.compareSync(p, h)\<close> on two strings;
  \<^item> \<open>text_of_num x\<close>: the text SQLite makes of the number \<open>x\<close> where TEXT affinity applies;
  \<^item> \<open>num_of_text s\<close>: the value SQLite stores for the text \<open>s\<close> in a column of INTEGER
    affinity (the number it spells, or \<open>s\<close> itself), for every text other than the short
    decimal literals, whose value is written out below.
  A stored value is written as the JavaScript value \<^verbatim>\<open>better-sqlite3\<close> reads it back as:
  \<^verbatim>\<open>null\<close>, a number, or a string (SQLite holds text as UTF-8, which has no unpaired
  surrogate).
\<close>

datatype sqlval = SNull | SNumber jsnum | SText jsstring

abbreviation SNum :: "real \<Rightarrow> sqlval" where
  "SNum x \<equiv> SNumber (Finite x)"

record deps =
  compare_str :: "jsstring \<Rightarrow> jsstring \<Rightarrow> bool"
  text_of_num :: "jsnum \<Rightarrow> jsstring"
  num_of_text :: "jsstring \<Rightarrow> sqlval"

subsection \<open>Binding statement parameters (\<^verbatim>\<open>better-sqlite3\<close>)\<close>

datatype bound = BNull | BNumber jsnum | BText jsstring

abbreviation BNum :: "real \<Rightarrow> bound" where
  "BNum x \<equiv> BNumber (Finite x)"

text \<open>A string is handed to SQLite as UTF-8; the conversion replaces every unpaired
  surrogate by U+FFFD (65533), as \<^verbatim>\<open>String.prototype.toWellFormed\<close> does.\<close>

definition high_surrogate :: "nat \<Rightarrow> bool" where
  "high_surrogate c = (55296 \<le> c \<and> c \<le> 56319)"

definition low_surrogate :: "nat \<Rightarrow> bool" where
  "low_surrogate c = (56320 \<le> c \<and> c \<le> 57343)"

fun toWellFormed :: "jsstring \<Rightarrow> jsstring" where
  "toWellFormed [] = []"
| "toWellFormed [c] = (if high_surrogate c \<or> low_surrogate c then [65533] else [c])"
| "toWellFormed (c # c' # cs) =
     (if high_surrogate c \<and> low_surrogate c' then c # c' # toWellFormed cs
      else if high_surrogate c \<or> low_surrogate c then 65533 # toWellFormed (c' # cs)
      else c # toWellFormed (c' # cs))"

text \<open>One value: numbers, strings, \<^verbatim>\<open>null\<close> and \<^verbatim>\<open>undefined\<close> bind; anything else
  throws (\<open>None\<close>).\<close>

fun BindValue :: "jsval \<Rightarrow> bound option" where
  "BindValue (JNumber x) = Some (BNumber x)"
| "BindValue (JStr s) = Some (BText (toWellFormed s))"
| "BindValue JNull = Some BNull"
| "BindValue JUndefined = Some BNull"
| "BindValue (JBool b) = None"
| "BindValue (JArr vs) = None"
| "BindValue (JObj kvs) = None"

text \<open>One argument of \<^verbatim>\<open>.run(...)\<close> or \<^verbatim>\<open>.get(...)\<close>: an array binds each of its elements
  as an anonymous parameter, a plain object binds named parameters (the statements of
  this server have none), any other value binds itself.\<close>

fun BindArg :: "jsval \<Rightarrow> bound list option" where
  "BindArg (JArr vs) = those (map BindValue vs)"
| "BindArg (JObj kvs) = Some []"
| "BindArg v = map_option (\<lambda>b. [b]) (BindValue v)"

fun is_object :: "jsval \<Rightarrow> bool" where
  "is_object (JObj kvs) = True"
| "is_object v = False"

text \<open>All arguments of a statement with \<open>param_count\<close> placeholders: a second plain
  object throws, an unbindable value throws, and so does a number of bound values other
  than \<open>param_count\<close>.\<close>

definition Bind :: "jsval list \<Rightarrow> nat \<Rightarrow> bound list option" where
  "Bind args param_count =
     (if 2 \<le> length (filter is_object args) then None
      else case those (map BindArg args) of
             None \<Rightarrow> None
           | Some bss \<Rightarrow>
               if length (concat bss) = param_count then Some (concat bss) else None)"

subsection \<open>Column affinity (SQLite)\<close>

datatype affinity = TEXT | INTEGER

text \<open>A decimal literal of at most 15 digits, such as the value of an
  \<^verbatim>\<open><input type="number">\<close> of the form, and the integer it spells (below \<open>2^53\<close>, so
  that it is read back exactly).\<close>

definition decimal :: "jsstring \<Rightarrow> bool" where
  "decimal s = (s \<noteq> [] \<and> length s \<le> 15 \<and> list_all (\<lambda>c. 48 \<le> c \<and> c \<le> 57) s)"

definition decimal_value :: "jsstring \<Rightarrow> nat" where
  "decimal_value s = fold (\<lambda>c n. 10 * n + (c - 48)) s 0"

text \<open>What a column of the given affinity stores for a bound value. In a column of
  INTEGER affinity a number stays the number it is (negative zero becomes the integer
  0) and a text that spells a number becomes that number.\<close>

fun apply_affinity :: "deps \<Rightarrow> affinity \<Rightarrow> bound \<Rightarrow> sqlval" where
  "apply_affinity d a BNull = SNull"
| "apply_affinity d TEXT (BText s) = SText s"
| "apply_affinity d TEXT (BNumber x) = SText (text_of_num d x)"
| "apply_affinity d INTEGER (BNumber NegZero) = SNum 0"
| "apply_affinity d INTEGER (BNumber x) = SNumber x"
| "apply_affinity d INTEGER (BText s) =
     (if decimal s then SNum (real (decimal_value s)) else num_of_text d s)"

subsection \<open>\<^verbatim>\<open>bcrypt.compareSync\<close>\<close>

text \<open>\<^verbatim>\<open>bcryptjs\<close> throws \<^verbatim>\<open>Error("Illegal arguments: ...")\<close> unless both arguments are
  strings; the stored hash always is one.\<close>

fun compareSync :: "deps \<Rightarrow> jsval \<Rightarrow> jsstring \<Rightarrow> bool option" where
  "compareSync d (JStr p) h = Some (compare_str d p h)"
| "compareSync d v h = None"


section \<open>The database\<close>

text \<open>
  The five tables of the \<^verbatim>\<open>CREATE TABLE IF NOT EXISTS\<close> script. A table is the list of
  its rows in rowid order, together with the largest rowid it ever held (the
  \<^verbatim>\<open>sqlite_sequence\<close> entry that \<^verbatim>\<open>AUTOINCREMENT\<close> keeps). A database file that does not
  exist yet is the database whose tables are all empty. \<open>r_created_at\<close> is the reading of
  the clock in whole seconds: \<^verbatim>\<open>CURRENT_TIMESTAMP\<close> is the text
  \<^verbatim>\<open>YYYY-MM-DD HH:MM:SS\<close>, whose order as text is the order of these readings.
  SQLite's ceiling on rowids (\<open>2^63 - 1\<close>) is not modelled.
\<close>

record users_row =
  u_id :: nat
  u_username :: jsstring
  u_password :: jsstring
  u_role :: jsstring

record users_table =
  u_rows :: "users_row list"
  u_seq :: nat

record row =
  r_id :: nat
  r_user_id :: sqlval
  r_fields :: "sqlval list"
  r_created_at :: nat

record table =
  t_rows :: "row list"
  t_seq :: nat

record database =
  users :: users_table
  inspections :: table
  trip_reports :: table
  estimates :: table
  minutes :: table

definition empty_table :: table where
  "empty_table = \<lparr>t_rows = [], t_seq = 0\<rparr>"

definition empty_database :: database where
  "empty_database =
     \<lparr>users = \<lparr>u_rows = [], u_seq = 0\<rparr>, inspections = empty_table,
      trip_reports = empty_table, estimates = empty_table, minutes = empty_table\<rparr>"

text \<open>\<^verbatim>\<open>INTEGER PRIMARY KEY AUTOINCREMENT\<close>: one more than the largest rowid the table
  holds or ever held.\<close>

definition autoincrement :: "nat list \<Rightarrow> nat \<Rightarrow> nat" where
  "autoincrement ids sq = Suc (fold max ids sq)"

datatype resource = Inspections | TripReports | Estimates | Minutes

text \<open>The domain columns of each table, in the order of its \<^verbatim>\<open>CREATE TABLE\<close>, between
  \<^verbatim>\<open>user_id\<close> and \<^verbatim>\<open>created_at\<close>.\<close>

fun columns :: "resource \<Rightarrow> (string \<times> affinity) list" where
  "columns Inspections =
     [(''project_name'', TEXT), (''date'', TEXT), (''location'', TEXT),
      (''findings'', TEXT), (''status'', TEXT)]"
| "columns TripReports =
     [(''destination'', TEXT), (''date_start'', TEXT), (''date_end'', TEXT),
      (''purpose'', TEXT), (''results'', TEXT), (''expenses'', INTEGER)]"
| "columns Estimates =
     [(''client_name'', TEXT), (''project_name'', TEXT), (''amount'', INTEGER),
      (''details'', TEXT), (''status'', TEXT)]"
| "columns Minutes =
     [(''title'', TEXT), (''date'', TEXT), (''attendees'', TEXT),
      (''content'', TEXT), (''action_items'', TEXT)]"

fun table_of :: "resource \<Rightarrow> database \<Rightarrow> table" where
  "table_of Inspections db = inspections db"
| "table_of TripReports db = trip_reports db"
| "table_of Estimates db = estimates db"
| "table_of Minutes db = minutes db"

fun set_table :: "resource \<Rightarrow> table \<Rightarrow> database \<Rightarrow> database" where
  "set_table Inspections t db = db\<lparr>inspections := t\<rparr>"
| "set_table TripReports t db = db\<lparr>trip_reports := t\<rparr>"
| "set_table Estimates t db = db\<lparr>estimates := t\<rparr>"
| "set_table Minutes t db = db\<lparr>minutes := t\<rparr>"

text \<open>\<^verbatim>\<open>INSERT INTO R (user_id, c1, ..., cn) VALUES (?, ..., ?)\<close> run with \<open>args\<close> at clock
  reading \<open>now\<close>: \<open>None\<close> when binding throws, else the new rowid
  (\<^verbatim>\<open>lastInsertRowid\<close>) and the table with the row appended.\<close>

definition insert_row ::
  "deps \<Rightarrow> affinity list \<Rightarrow> jsval list \<Rightarrow> nat \<Rightarrow> table \<Rightarrow> (nat \<times> table) option" where
  "insert_row d affs args now t =
     (case Bind args (Suc (length affs)) of
        None \<Rightarrow> None
      | Some [] \<Rightarrow> None
      | Some (u # bs) \<Rightarrow>
          (let i = autoincrement (map r_id (t_rows t)) (t_seq t);
               r = \<lparr>r_id = i, r_user_id = apply_affinity d INTEGER u,
                    r_fields = map2 (apply_affinity d) affs bs, r_created_at = now\<rparr>
           in Some (i, \<lparr>t_rows = t_rows t @ [r], t_seq = i\<rparr>)))"

text \<open>\<^verbatim>\<open>SELECT * FROM R ORDER BY created_at DESC\<close>: the rows are scanned in rowid order and
  sorted by descending \<^verbatim>\<open>created_at\<close>; SQLite's sorter leaves rows that compare equal in the
  order of the scan.\<close>

definition order_by_created_at_desc :: "row list \<Rightarrow> row list" where
  "order_by_created_at_desc rs = rev (sort_key r_created_at (rev rs))"

text \<open>\<^verbatim>\<open>SELECT * FROM users WHERE username = ?\<close> with \<^verbatim>\<open>.get(v)\<close>: \<open>None\<close> when binding
  throws, else the first matching row if any. The column has TEXT affinity, which is
  applied to the parameter; \<^verbatim>\<open>NULL\<close> equals nothing.\<close>

definition get_user :: "deps \<Rightarrow> jsval \<Rightarrow> users_table \<Rightarrow> users_row option option" where
  "get_user d v t =
     (case Bind [v] 1 of
        Some [BText s] \<Rightarrow> Some (find (\<lambda>u. u_username u = s) (u_rows t))
      | Some [BNumber x] \<Rightarrow> Some (find (\<lambda>u. u_username u = text_of_num d x) (u_rows t))
      | Some [BNull] \<Rightarrow> Some None
      | _ \<Rightarrow> None)"

text \<open>\<^verbatim>\<open>INSERT INTO users (username, password, role) VALUES (?, ?, ?)\<close> with three strings.\<close>

definition insert_user ::
  "jsstring \<Rightarrow> jsstring \<Rightarrow> jsstring \<Rightarrow> users_table \<Rightarrow> users_table" where
  "insert_user name pw rl t =
     (let i = autoincrement (map u_id (u_rows t)) (u_seq t)
      in \<lparr>u_rows = u_rows t @ [\<lparr>u_id = i, u_username = name, u_password = pw, u_role = rl\<rparr>],
          u_seq = i\<rparr>)"

text \<open>The seed at module load: \<open>hashedPassword\<close> is what \<^verbatim>\<open>bcrypt.hashSync('admin123', 10)\<close>
  returns in this boot (it draws a random salt).\<close>

definition seed :: "jsstring \<Rightarrow> database \<Rightarrow> database" where
  "seed hashedPassword db =
     (case find (\<lambda>u. u_username u = js ''admin'') (u_rows (users db)) of
        Some r \<Rightarrow> db
      | None \<Rightarrow> db\<lparr>users := insert_user (js ''admin'') hashedPassword (js ''admin'') (users db)\<rparr>)"


section \<open>Sessions, requests and responses\<close>

text \<open>
  \<^verbatim>\<open>express-session\<close> with its default in-memory store, \<^verbatim>\<open>resave: false\<close> and
  \<^verbatim>\<open>saveUninitialized: false\<close>: a request whose cookie names a stored session gets that
  session, any other request gets an empty session under a newly generated id
  (\<open>fresh_sid\<close>); a session is written to the store, and its cookie sent, only when the
  handler has modified it. The cookie is assumed to travel (the \<^verbatim>\<open>secure\<close> flag of
  production mode over plain HTTP is outside the model).
\<close>

type_synonym sid = nat

record SessionData =
  userId :: "nat option"
  username :: "jsstring option"

record state =
  db :: database
  sessions :: "sid \<rightharpoonup> SessionData"

datatype route =
    PostLogin
  | PostLogout
  | GetMe
  | GetList resource
  | PostCreate resource

record request =
  route :: route
  cookie :: "sid option"
  body :: jsobject
  fresh_sid :: sid
  now :: nat

text \<open>A row as \<^verbatim>\<open>res.json(rows)\<close> sends it: \<^verbatim>\<open>JSON.stringify\<close> writes an infinite
  number as \<^verbatim>\<open>null\<close>. \<open>l_created_at\<close> stays the clock reading that the text of
  \<^verbatim>\<open>created_at\<close> spells.\<close>

record listed_row =
  l_id :: nat
  l_user_id :: jsval
  l_fields :: "jsval list"
  l_created_at :: nat

fun json_of_sql :: "sqlval \<Rightarrow> jsval" where
  "json_of_sql SNull = JNull"
| "json_of_sql (SNumber (Finite x)) = JNum x"
| "json_of_sql (SNumber NegZero) = JNum 0"
| "json_of_sql (SNumber PosInfinity) = JNull"
| "json_of_sql (SNumber NegInfinity) = JNull"
| "json_of_sql (SText s) = JStr s"

definition listed :: "row \<Rightarrow> listed_row" where
  "listed r = \<lparr>l_id = r_id r, l_user_id = json_of_sql (r_user_id r),
               l_fields = map json_of_sql (r_fields r), l_created_at = r_created_at r\<rparr>"

datatype payload = Json jsval | Rows "listed_row list" | ErrorPage

record response =
  status :: nat
  payload :: payload
  set_cookie :: "sid option"

definition empty_session :: SessionData where
  "empty_session = \<lparr>userId = None, username = None\<rparr>"

text \<open>The session middleware: the id and the data of \<^verbatim>\<open>req.session\<close>, and whether the
  session is new.\<close>

definition session_of :: "request \<Rightarrow> state \<Rightarrow> sid \<times> SessionData \<times> bool" where
  "session_of req s =
     (case cookie req of
        None \<Rightarrow> (fresh_sid req, empty_session, True)
      | Some c \<Rightarrow>
          (case sessions s c of
             None \<Rightarrow> (fresh_sid req, empty_session, True)
           | Some sess \<Rightarrow> (c, sess, False)))"

text \<open>\<^verbatim>\<open>req.session\<close> as the handlers see it.\<close>

definition req_session :: "request \<Rightarrow> state \<Rightarrow> SessionData" where
  "req_session req s = fst (snd (session_of req s))"

definition reply :: "nat \<Rightarrow> jsval \<Rightarrow> response" where
  "reply code v = \<lparr>status = code, payload = Json v, set_cookie = None\<rparr>"

text \<open>A handler that throws ends in the default error handler of Express.\<close>

definition server_error :: response where
  "server_error = \<lparr>status = 500, payload = ErrorPage, set_cookie = None\<rparr>"


section \<open>The routes\<close>

text \<open>The middleware \<^verbatim>\<open>authenticate\<close>: \<^verbatim>\<open>next()\<close> when \<^verbatim>\<open>req.session.userId\<close> is truthy, else
  401.\<close>

definition authenticate ::
  "request \<Rightarrow> state \<Rightarrow> (nat \<Rightarrow> response \<times> state) \<Rightarrow> response \<times> state" where
  "authenticate req s next =
     (case session_of req s of
        (i, sess, new) \<Rightarrow>
          (case userId sess of
             Some u \<Rightarrow>
               if truthy (Some u) then next u
               else (reply 401 (json [(''error'', JStr (js ''Unauthorized''))]), s)
           | None \<Rightarrow> (reply 401 (json [(''error'', JStr (js ''Unauthorized''))]), s)))"

definition post_login :: "deps \<Rightarrow> request \<Rightarrow> state \<Rightarrow> response \<times> state" where
  "post_login d req s =
     (case session_of req s of
        (i, sess, new) \<Rightarrow>
          (case get_user d (get_prop (body req) ''username'') (users (db s)) of
             None \<Rightarrow> (server_error, s)
           | Some None \<Rightarrow> (reply 401 (json [(''error'', JStr (js ''Invalid credentials''))]), s)
           | Some (Some user) \<Rightarrow>
               (case compareSync d (get_prop (body req) ''password'') (u_password user) of
                  None \<Rightarrow> (server_error, s)
                | Some False \<Rightarrow>
                    (reply 401 (json [(''error'', JStr (js ''Invalid credentials''))]), s)
                | Some True \<Rightarrow>
                    (\<lparr>status = 200,
                      payload = Json (json [(''id'', JNum (real (u_id user))),
                                            (''username'', JStr (u_username user)),
                                            (''role'', JStr (u_role user))]),
                      set_cookie = (if new then Some i else None)\<rparr>,
                     s\<lparr>sessions := (sessions s)
                          (i \<mapsto> sess\<lparr>userId := Some (u_id user),
                                     username := Some (u_username user)\<rparr>)\<rparr>))))"

definition post_logout :: "request \<Rightarrow> state \<Rightarrow> response \<times> state" where
  "post_logout req s =
     (case session_of req s of
        (i, sess, new) \<Rightarrow>
          (reply 200 (json [(''success'', JBool True)]),
           s\<lparr>sessions := (sessions s)(i := None)\<rparr>))"

definition get_me :: "request \<Rightarrow> state \<Rightarrow> response \<times> state" where
  "get_me req s =
     (case session_of req s of
        (i, sess, new) \<Rightarrow>
          if truthy (userId sess) then
            (reply 200
               (json [(''id'', case userId sess of None \<Rightarrow> JUndefined
                                | Some u \<Rightarrow> JNum (real u)),
                      (''username'', case username sess of None \<Rightarrow> JUndefined
                                      | Some n \<Rightarrow> JStr n)]), s)
          else (reply 401 (json [(''error'', JStr (js ''Not logged in''))]), s))"

text \<open>The body shared by the four \<^verbatim>\<open>app.post('/api/R', ...)\<close> handlers once the
  arguments of \<^verbatim>\<open>.run\<close> are collected.\<close>

definition run_insert ::
  "deps \<Rightarrow> resource \<Rightarrow> jsval list \<Rightarrow> request \<Rightarrow> state \<Rightarrow> response \<times> state" where
  "run_insert d R args req s =
     (case insert_row d (map snd (columns R)) args (now req) (table_of R (db s)) of
        None \<Rightarrow> (server_error, s)
      | Some (i, t) \<Rightarrow>
          (reply 200 (json [(''id'', JNum (real i))]), s\<lparr>db := set_table R t (db s)\<rparr>))"

definition get_list :: "resource \<Rightarrow> request \<Rightarrow> state \<Rightarrow> response \<times> state" where
  "get_list R req s =
     authenticate req s (\<lambda>u.
       (\<lparr>status = 200,
         payload = Rows (map listed (order_by_created_at_desc (t_rows (table_of R (db s))))),
         set_cookie = None\<rparr>, s))"

definition post_inspections :: "deps \<Rightarrow> request \<Rightarrow> state \<Rightarrow> response \<times> state" where
  "post_inspections d req s =
     authenticate req s (\<lambda>u.
       run_insert d Inspections
         [JNum (real u), get_prop (body req) ''project_name'', get_prop (body req) ''date'',
          get_prop (body req) ''location'', get_prop (body req) ''findings'',
          get_prop (body req) ''status''] req s)"

definition post_trip_reports :: "deps \<Rightarrow> request \<Rightarrow> state \<Rightarrow> response \<times> state" where
  "post_trip_reports d req s =
     authenticate req s (\<lambda>u.
       run_insert d TripReports
         [JNum (real u), get_prop (body req) ''destination'', get_prop (body req) ''date_start'',
          get_prop (body req) ''date_end'', get_prop (body req) ''purpose'',
          get_prop (body req) ''results'', get_prop (body req) ''expenses''] req s)"

definition post_estimates :: "deps \<Rightarrow> request \<Rightarrow> state \<Rightarrow> response \<times> state" where
  "post_estimates d req s =
     authenticate req s (\<lambda>u.
       run_insert d Estimates
         [JNum (real u), get_prop (body req) ''client_name'', get_prop (body req) ''project_name'',
          get_prop (body req) ''amount'', get_prop (body req) ''details'',
          get_prop (body req) ''status''] req s)"

definition post_minutes :: "deps \<Rightarrow> request \<Rightarrow> state \<Rightarrow> response \<times> state" where
  "post_minutes d req s =
     authenticate req s (\<lambda>u.
       run_insert d Minutes
         [JNum (real u), get_prop (body req) ''title'', get_prop (body req) ''date'',
          get_prop (body req) ''attendees'', get_prop (body req) ''content'',
          get_prop (body req) ''action_items''] req s)"

fun post_create :: "deps \<Rightarrow> resource \<Rightarrow> request \<Rightarrow> state \<Rightarrow> response \<times> state" where
  "post_create d Inspections req s = post_inspections d req s"
| "post_create d TripReports req s = post_trip_reports d req s"
| "post_create d Estimates req s = post_estimates d req s"
| "post_create d Minutes req s = post_minutes d req s"

text \<open>The router: one request against the running server.\<close>

definition handle :: "deps \<Rightarrow> request \<Rightarrow> state \<Rightarrow> response \<times> state" where
  "handle d req s =
     (case route req of
        PostLogin \<Rightarrow> post_login d req s
      | PostLogout \<Rightarrow> post_logout req s
      | GetMe \<Rightarrow> get_me req s
      | GetList R \<Rightarrow> get_list R req s
      | PostCreate R \<Rightarrow> post_create d R req s)"

text \<open>A boot of the process: the schema script, the seed, and a server that starts with
  an empty session store.\<close>

definition boot :: "jsstring \<Rightarrow> database \<Rightarrow> state" where
  "boot hashedPassword file = \<lparr>db = seed hashedPassword file, sessions = Map.empty\<rparr>"

text \<open>The life of one database file: boots and requests in any order.\<close>

datatype event = Boot jsstring | Request request

fun step :: "deps \<Rightarrow> event \<Rightarrow> state \<Rightarrow> state" where
  "step d (Boot h) s = boot h (db s)"
| "step d (Request req) s = snd (handle d req s)"

fun run :: "deps \<Rightarrow> event list \<Rightarrow> state \<Rightarrow> state" where
  "run d [] s = s"
| "run d (e # es) s = run d es (step d e s)"


section \<open>The dashboard of the client\<close>

text \<open>\<^verbatim>\<open>DashboardView\<close> receives the fetched array of inspections, each a JSON object, and
  computes three numbers with \<^verbatim>\<open>inspections.filter(i => i.status === '...').length\<close>.\<close>

record stats =
  pending :: nat
  completed :: nat
  urgent :: nat

definition DashboardView :: "jsobject list \<Rightarrow> stats" where
  "DashboardView inspections_list =
     \<lparr>pending = length (filter (\<lambda>i. get_prop i ''status'' = JStr (js ''pending'')) inspections_list),
      completed = length (filter (\<lambda>i. get_prop i ''status'' = JStr (js ''completed'')) inspections_list),
      urgent = length (filter (\<lambda>i. get_prop i ''status'' = JStr (js ''urgent'')) inspections_list)\<rparr>"

text \<open>
  The state of \<^verbatim>\<open>App\<close> that matters here: the view and the four lists of
  \<^verbatim>\<open>useState\<close>. A view is \<^verbatim>\<open>'dashboard'\<close> or the list view of a resource. \<^verbatim>\<open>fetchData\<close>
  asks the endpoint of the view and stores the array it receives under the four
  conditions \<^verbatim>\<open>if (view === '...') set...(data)\<close>. \<open>fetch\<close> is the network and the server:
  \<open>None\<close> when the request throws (the \<^verbatim>\<open>catch\<close> logs and leaves the state), else whether
  the response is \<^verbatim>\<open>ok\<close> and the array it carries. The four lists are named \<open>c_...\<close>,
  as \<open>inspections\<close>, \<open>estimates\<close> and \<open>minutes\<close> name tables above. The dashboard is rendered
  with \<^verbatim>\<open><DashboardView inspections={inspections} />\<close>.
\<close>

datatype View = Dashboard | ListView resource

record client =
  view :: View
  c_inspections :: "jsobject list"
  c_tripReports :: "jsobject list"
  c_estimates :: "jsobject list"
  c_minutes :: "jsobject list"

fun endpoints :: "View \<Rightarrow> resource" where
  "endpoints (ListView R) = R"
| "endpoints Dashboard = Inspections"

definition fetchData ::
  "(resource \<Rightarrow> (bool \<times> jsobject list) option) \<Rightarrow> client \<Rightarrow> client" where
  "fetchData fetch st =
     (case fetch (endpoints (view st)) of
        None \<Rightarrow> st
      | Some (ok, data) \<Rightarrow>
          if ok then
            (case view st of
               ListView Inspections \<Rightarrow> st\<lparr>c_inspections := data\<rparr>
             | ListView TripReports \<Rightarrow> st\<lparr>c_tripReports := data\<rparr>
             | ListView Estimates \<Rightarrow> st\<lparr>c_estimates := data\<rparr>
             | ListView Minutes \<Rightarrow> st\<lparr>c_minutes := data\<rparr>
             | Dashboard \<Rightarrow> st)
          else st)"

text \<open>The client when \<^verbatim>\<open>App\<close> mounts, and a change of view.\<close>

definition initial_client :: client where
  "initial_client =
     \<lparr>view = Dashboard, c_inspections = [], c_tripReports = [], c_estimates = [],
      c_minutes = []\<rparr>"

definition setView :: "View \<Rightarrow> client \<Rightarrow> client" where
  "setView v st = st\<lparr>view := v\<rparr>"


section \<open>Notions used to state the properties\<close>

text \<open>The values \<^verbatim>\<open>better-sqlite3\<close> binds when they stand alone as an argument.\<close>

fun scalar :: "jsval \<Rightarrow> bool" where
  "scalar (JNumber x) = True"
| "scalar (JStr s) = True"
| "scalar JNull = True"
| "scalar JUndefined = True"
| "scalar v = False"

text \<open>The domain fields of a body, destructured in column order.\<close>

definition domain_args :: "resource \<Rightarrow> jsobject \<Rightarrow> jsval list" where
  "domain_args R b = map (\<lambda>c. get_prop b (fst c)) (columns R)"

text \<open>The largest rowid a table holds or ever held.\<close>

definition high_water :: "table \<Rightarrow> nat" where
  "high_water t = fold max (map r_id (t_rows t)) (t_seq t)"

text \<open>A complete valid field set: every field present, a string in every TEXT column,
  a number or a string in every INTEGER column (the form of the client sends the value
  of an \<^verbatim>\<open><input type="number">\<close>, a string). Among these, the values that a listing
  returns as they were submitted: a string without unpaired surrogate in a TEXT column,
  a finite number in an INTEGER column.\<close>

fun valid_value :: "affinity \<Rightarrow> jsval \<Rightarrow> bool" where
  "valid_value TEXT (JStr s) = True"
| "valid_value INTEGER (JNumber x) = True"
| "valid_value INTEGER (JStr s) = True"
| "valid_value a v = False"

definition valid_fields :: "resource \<Rightarrow> jsobject \<Rightarrow> bool" where
  "valid_fields R b = list_all (\<lambda>c. valid_value (snd c) (get_prop b (fst c))) (columns R)"

fun round_trips :: "affinity \<Rightarrow> jsval \<Rightarrow> bool" where
  "round_trips TEXT (JStr s) = (toWellFormed s = s)"
| "round_trips INTEGER (JNumber (Finite x)) = True"
| "round_trips a v = False"

text \<open>What a listing returns for a scalar stored in a column of the given affinity.\<close>

definition listed_value :: "deps \<Rightarrow> affinity \<Rightarrow> jsval \<Rightarrow> jsval" where
  "listed_value d a v =
     (case BindValue v of None \<Rightarrow> JUndefined | Some b \<Rightarrow> json_of_sql (apply_affinity d a b))"

definition admin_count :: "database \<Rightarrow> nat" where
  "admin_count dbs = length (filter (\<lambda>u. u_username u = js ''admin'') (u_rows (users dbs)))"


section \<open>Concrete runs\<close>

text \<open>An instance of the three open functions and a few requests and states, used to
  run the model on concrete inputs. \<open>seeded\<close> is the server after its first boot on a
  new database file, \<open>logged_in\<close> the server after the administrator has logged in (the
  session id is 7), \<open>one_inspection\<close> the server after one inspection was created at
  clock reading 200.\<close>

definition sample_deps :: deps where
  "sample_deps = \<lparr>compare_str = (\<lambda>p h. h = js ''bcrypt:'' @ p), text_of_num = (\<lambda>x. js ''0.0''),
                   num_of_text = SText\<rparr>"

definition seeded :: state where
  "seeded = boot (js ''bcrypt:admin123'') empty_database"

definition login_admin :: request where
  "login_admin = \<lparr>route = PostLogin, cookie = None,
     body = [''username'' \<mapsto> JStr (js ''admin''), ''password'' \<mapsto> JStr (js ''admin123'')],
     fresh_sid = 7, now = 100\<rparr>"

definition logged_in :: state where
  "logged_in = snd (handle sample_deps login_admin seeded)"

definition inspection_fields :: jsobject where
  "inspection_fields = [''project_name'' \<mapsto> JStr (js ''Bridge''), ''date'' \<mapsto> JStr (js ''2024-05-01''),
     ''location'' \<mapsto> JStr (js ''Osaka''), ''findings'' \<mapsto> JStr (js ''crack''),
     ''status'' \<mapsto> JStr (js ''pending'')]"

definition post_inspection :: "sid option \<Rightarrow> jsobject \<Rightarrow> nat \<Rightarrow> request" where
  "post_inspection c b t =
     \<lparr>route = PostCreate Inspections, cookie = c, body = b, fresh_sid = 8, now = t\<rparr>"

definition list_inspections :: request where
  "list_inspections = \<lparr>route = GetList Inspections, cookie = Some 7, body = Map.empty,
     fresh_sid = 9, now = 300\<rparr>"

definition one_inspection :: state where
  "one_inspection =
     snd (handle sample_deps (post_inspection (Some 7) inspection_fields 200) logged_in)"

definition estimate_fields :: jsobject where
  "estimate_fields = [''client_name'' \<mapsto> JStr (js ''ACME''), ''project_name'' \<mapsto> JStr (js ''Bridge''),
     ''amount'' \<mapsto> JStr (js ''1000''), ''details'' \<mapsto> JStr (js ''steel''),
     ''status'' \<mapsto> JStr (js ''draft'')]"

definition post_estimate :: request where
  "post_estimate =
     \<lparr>route = PostCreate Estimates, cookie = Some 7, body = estimate_fields, fresh_sid = 8,
      now = 200\<rparr>"

definition list_estimates :: request where
  "list_estimates = \<lparr>route = GetList Estimates, cookie = Some 7, body = Map.empty,
     fresh_sid = 9, now = 300\<rparr>"

definition trip_fields :: jsobject where
  "trip_fields = [''destination'' \<mapsto> JStr [55296], ''date_start'' \<mapsto> JStr (js ''2024-05-01''),
     ''date_end'' \<mapsto> JStr (js ''2024-05-02''), ''purpose'' \<mapsto> JStr (js ''survey''),
     ''results'' \<mapsto> JStr (js ''done''), ''expenses'' \<mapsto> JNumber PosInfinity]"

definition post_trip_report :: request where
  "post_trip_report =
     \<lparr>route = PostCreate TripReports, cookie = Some 7, body = trip_fields, fresh_sid = 8,
      now = 200\<rparr>"

definition list_trip_reports :: request where
  "list_trip_reports = \<lparr>route = GetList TripReports, cookie = Some 7, body = Map.empty,
     fresh_sid = 9, now = 300\<rparr>"

text \<open>Four inspections as \<^verbatim>\<open>GET /api/inspections\<close> returns them, with the statuses
  pending, urgent, completed, pending, and a server that answers every fetch with
  them.\<close>

definition four_inspections :: "jsobject list" where
  "four_inspections =
     [[''id'' \<mapsto> JNum 4, ''status'' \<mapsto> JStr (js ''pending'')],
      [''id'' \<mapsto> JNum 3, ''status'' \<mapsto> JStr (js ''urgent'')],
      [''id'' \<mapsto> JNum 2, ''status'' \<mapsto> JStr (js ''completed'')],
      [''id'' \<mapsto> JNum 1, ''status'' \<mapsto> JStr (js ''pending'')]]"

definition fetch_four :: "resource \<Rightarrow> (bool \<times> jsobject list) option" where
  "fetch_four R = Some (True, four_inspections)"

definition get_me_7 :: request where
  "get_me_7 = \<lparr>route = GetMe, cookie = Some 7, body = Map.empty, fresh_sid = 10, now = 300\<rparr>"

definition post_logout_7 :: "sid \<Rightarrow> request" where
  "post_logout_7 f =
     \<lparr>route = PostLogout, cookie = Some 7, body = Map.empty, fresh_sid = f, now = 300\<rparr>"


section \<open>Basic facts\<close>

text \<open>A string of the program text has no surrogate, and \<open>js\<close> is one to one.\<close>

lemma js_eq_iff [simp]: "js a = js b \<longleftrightarrow> a = b"
  unfolding js_def by (rule inj_map_eq_map) (rule inj_of_char)

lemma js_append [simp]: "js a @ js b = js (a @ b)"
  by (simp add: js_def)

lemma js_units_small: "c \<in> set (js s) \<Longrightarrow> c < 256"
proof -
  assume "c \<in> set (js s)"
  then obtain ch :: char where "c = of_char ch" by (auto simp: js_def)
  moreover have "(of_char ch :: nat) mod 256 = of_char ch" by simp
  ultimately show ?thesis by (metis mod_less_divisor zero_less_numeral)
qed

lemma toWellFormed_no_surrogate:
  "\<forall>c\<in>set s. c < 55296 \<Longrightarrow> toWellFormed s = s"
  by (induction s rule: toWellFormed.induct)
     (auto simp: high_surrogate_def low_surrogate_def)

lemma toWellFormed_js [simp]: "toWellFormed (js s) = js s"
proof (rule toWellFormed_no_surrogate)
  show "\<forall>c\<in>set (js s). c < 55296"
    using js_units_small[of _ s] by fastforce
qed

text \<open>Arguments that are all scalars bind one to one.\<close>

lemma those_BindArg_scalars:
  "list_all scalar vs \<Longrightarrow> those (map BindArg vs) = Some (map (\<lambda>v. [the (BindValue v)]) vs)"
proof (induction vs)
  case Nil
  then show ?case by simp
next
  case (Cons v vs)
  then show ?case by (cases v) simp_all
qed

lemma no_object_scalars: "list_all scalar vs \<Longrightarrow> filter is_object vs = []"
proof (induction vs)
  case Nil
  then show ?case by simp
next
  case (Cons v vs)
  then show ?case by (cases v) simp_all
qed

lemma concat_singletons: "concat (map (\<lambda>v. [f v]) vs) = map f vs"
  by (induction vs) simp_all

lemma Bind_scalars:
  "list_all scalar vs \<Longrightarrow> n = length vs \<Longrightarrow> Bind vs n = Some (map (\<lambda>v. the (BindValue v)) vs)"
  by (simp add: Bind_def those_BindArg_scalars no_object_scalars concat_singletons)

lemma Bind_first_num:
  assumes "Bind (JNum u # vs) n = Some bs"
  shows "\<exists>bs'. bs = BNum u # bs'"
  using assms by (auto simp: Bind_def split: if_splits option.splits)

text \<open>\<open>fold max\<close> computes a maximum.\<close>

lemma fold_max_Max: "fold max xs (a::nat) = Max (insert a (set xs))"
  using Max.set_eq_fold[of a xs] by simp

lemma fold_max_ge_init: "(a::nat) \<le> fold max xs a"
  by (simp add: fold_max_Max)

lemma fold_max_ge_elem: "x \<in> set xs \<Longrightarrow> (x::nat) \<le> fold max xs a"
  by (simp add: fold_max_Max)

lemma fold_max_Suc: "fold max xs (Suc (fold max xs a)) = Suc (fold max xs (a::nat))"
proof -
  have "Max (insert (Suc (fold max xs a)) (set xs)) = Suc (fold max xs a)"
  proof (rule Max_eqI)
    show "finite (insert (Suc (fold max xs a)) (set xs))" by simp
    show "y \<le> Suc (fold max xs a)" if "y \<in> insert (Suc (fold max xs a)) (set xs)" for y
      using that fold_max_ge_elem[of y xs a] by auto
    show "Suc (fold max xs a) \<in> insert (Suc (fold max xs a)) (set xs)" by simp
  qed
  then show ?thesis by (simp add: fold_max_Max)
qed

text \<open>What a successful \<^verbatim>\<open>INSERT\<close> returns and leaves behind.\<close>

lemma insert_row_Some:
  assumes "insert_row d affs args nw t = Some (i, t')"
  shows "i = Suc (high_water t) \<and>
         (\<exists>r. t' = \<lparr>t_rows = t_rows t @ [r], t_seq = i\<rparr> \<and> r_id r = i \<and> r_created_at r = nw)"
  using assms
  by (auto simp: insert_row_def high_water_def autoincrement_def Let_def split: option.splits list.splits)

lemma high_water_insert:
  assumes "insert_row d affs args nw t = Some (i, t')"
  shows "high_water t' = i"
proof -
  from insert_row_Some[OF assms] obtain r where
    i: "i = Suc (high_water t)" and t': "t' = \<lparr>t_rows = t_rows t @ [r], t_seq = i\<rparr>" and r: "r_id r = i"
    by blast
  have "fold max (map r_id (t_rows t)) i = i"
    using i by (simp add: high_water_def fold_max_Suc)
  then show ?thesis using t' r by (simp add: high_water_def)
qed

lemma insert_row_user_id:
  assumes "insert_row d affs (JNum u # vs) nw t = Some (i, t')"
  shows "r_user_id (last (t_rows t')) = SNum u"
proof -
  from assms obtain bs where b: "Bind (JNum u # vs) (Suc (length affs)) = Some bs"
    by (auto simp: insert_row_def split: option.splits)
  then obtain bs' where "bs = BNum u # bs'" using Bind_first_num by blast
  with assms b show ?thesis by (auto simp: insert_row_def Let_def)
qed

lemma length_domain_args [simp]: "length (domain_args R b) = length (columns R)"
  by (simp add: domain_args_def)

lemma insert_row_scalars:
  assumes "list_all scalar vs" and "length vs = length affs"
  shows "insert_row d affs (JNum u # vs) nw t =
     Some (Suc (high_water t),
           \<lparr>t_rows = t_rows t @
              [\<lparr>r_id = Suc (high_water t), r_user_id = SNum u,
                r_fields = map2 (apply_affinity d) affs (map (\<lambda>v. the (BindValue v)) vs),
                r_created_at = nw\<rparr>],
            t_seq = Suc (high_water t)\<rparr>)"
proof -
  have "list_all scalar (JNum u # vs)" using assms(1) by simp
  from Bind_scalars[OF this, of "Suc (length affs)"] assms(2)
  have "Bind (JNum u # vs) (Suc (length affs)) = Some (BNum u # map (\<lambda>v. the (BindValue v)) vs)"
    by simp
  then show ?thesis
    by (simp add: insert_row_def Let_def autoincrement_def high_water_def)
qed

text \<open>Tables are independent of one another, and the seed touches \<^verbatim>\<open>users\<close> only.\<close>

lemma table_of_set_table_same [simp]: "table_of R (set_table R t dbs) = t"
  by (cases R) simp_all

lemma table_of_set_table_other: "R' \<noteq> R \<Longrightarrow> table_of R' (set_table R t dbs) = table_of R' dbs"
  by (cases R; cases R') simp_all

lemma users_set_table [simp]: "users (set_table R t dbs) = users dbs"
  by (cases R) simp_all

lemma table_of_seed [simp]: "table_of R (seed h dbs) = table_of R dbs"
  by (cases R) (simp_all add: seed_def split: option.splits)

text \<open>Each route, unfolded once; the requests that leave the database alone.\<close>

lemma req_session_cong:
  "cookie g = cookie r \<Longrightarrow> sessions s' = sessions s \<Longrightarrow> req_session g s' = req_session r s"
  by (simp add: req_session_def session_of_def split: option.splits)

lemma authenticate_unfold:
  "authenticate req s nxt =
     (case userId (req_session req s) of
        None \<Rightarrow> (reply 401 (json [(''error'', JStr (js ''Unauthorized''))]), s)
      | Some u \<Rightarrow> if u \<noteq> 0 then nxt u else (reply 401 (json [(''error'', JStr (js ''Unauthorized''))]), s))"
  by (simp add: authenticate_def req_session_def split: prod.splits option.splits)

lemma post_create_unfold:
  "post_create d R req s =
     authenticate req s (\<lambda>u. run_insert d R (JNum (real u) # domain_args R (body req)) req s)"
  by (cases R) (simp_all add: post_inspections_def post_trip_reports_def post_estimates_def
      post_minutes_def domain_args_def)

lemma create_unfold:
  assumes "route req = PostCreate R"
  shows "handle d req s =
     (case userId (req_session req s) of
        None \<Rightarrow> (reply 401 (json [(''error'', JStr (js ''Unauthorized''))]), s)
      | Some u \<Rightarrow>
          if u = 0 then (reply 401 (json [(''error'', JStr (js ''Unauthorized''))]), s)
          else (case insert_row d (map snd (columns R)) (JNum (real u) # domain_args R (body req))
                       (now req) (table_of R (db s)) of
                  None \<Rightarrow> (server_error, s)
                | Some (i, t) \<Rightarrow>
                    (reply 200 (json [(''id'', JNum (real i))]), s\<lparr>db := set_table R t (db s)\<rparr>)))"
  using assms
  by (simp add: handle_def post_create_unfold authenticate_unfold run_insert_def
      split: option.splits)

lemma list_unfold:
  assumes "route req = GetList R"
  shows "handle d req s =
     (case userId (req_session req s) of
        None \<Rightarrow> (reply 401 (json [(''error'', JStr (js ''Unauthorized''))]), s)
      | Some u \<Rightarrow>
          if u = 0 then (reply 401 (json [(''error'', JStr (js ''Unauthorized''))]), s)
          else (\<lparr>status = 200,
                 payload = Rows (map listed (order_by_created_at_desc (t_rows (table_of R (db s))))),
                 set_cookie = None\<rparr>, s))"
  using assms
  by (simp add: handle_def get_list_def authenticate_unfold split: option.splits)

lemma logout_unfold:
  assumes "route req = PostLogout"
  shows "handle d req s =
     (reply 200 (json [(''success'', JBool True)]),
      s\<lparr>sessions := (sessions s)(fst (session_of req s) := None)\<rparr>)"
  using assms by (simp add: handle_def post_logout_def split: prod.splits)

lemma me_unfold:
  assumes "route m = GetMe"
  shows "handle d m s =
     (if truthy (userId (req_session m s)) then
        (reply 200
           (json [(''id'', case userId (req_session m s) of None \<Rightarrow> JUndefined
                            | Some u \<Rightarrow> JNum (real u)),
                  (''username'', case username (req_session m s) of None \<Rightarrow> JUndefined
                                  | Some n \<Rightarrow> JStr n)]), s)
      else (reply 401 (json [(''error'', JStr (js ''Not logged in''))]), s))"
  using assms by (simp add: handle_def get_me_def req_session_def split: prod.splits)


lemma reply_neq_error [simp]: "reply c v \<noteq> server_error" "server_error \<noteq> reply c v"
  by (simp_all add: reply_def server_error_def)

lemma create_success:
  assumes "route req = PostCreate R"
    and "fst (handle d req s) = reply 200 (json [(''id'', JNum (real i))])"
  shows "\<exists>u t. userId (req_session req s) = Some u \<and> u \<noteq> 0 \<and>
           insert_row d (map snd (columns R)) (JNum (real u) # domain_args R (body req))
             (now req) (table_of R (db s)) = Some (i, t) \<and>
           snd (handle d req s) = s\<lparr>db := set_table R t (db s)\<rparr>"
  using assms(2) unfolding create_unfold[OF assms(1)]
  by (auto simp: reply_def json_def server_error_def split: option.splits if_splits)

lemma create_state:
  assumes "route req = PostCreate R"
  shows "snd (handle d req s) = s \<or>
     (\<exists>u i t. insert_row d (map snd (columns R)) (JNum (real u) # domain_args R (body req))
             (now req) (table_of R (db s)) = Some (i, t) \<and>
           snd (handle d req s) = s\<lparr>db := set_table R t (db s)\<rparr>)"
  unfolding create_unfold[OF assms]
  by (auto split: option.splits)

lemma db_handle_other:
  assumes "\<forall>R. route req \<noteq> PostCreate R"
  shows "db (snd (handle d req s)) = db s"
  using assms
  by (cases "route req")
     (auto simp: handle_def post_login_def post_logout_def get_me_def get_list_def
        authenticate_unfold split: prod.splits option.splits bool.splits)

lemma users_handle: "users (db (snd (handle d req s))) = users (db s)"
proof (cases "\<exists>R. route req = PostCreate R")
  case True
  then obtain R where "route req = PostCreate R" by blast
  from create_state[OF this, of d s] show ?thesis by auto
next
  case False
  then show ?thesis using db_handle_other[of req d s] by simp
qed

lemma run_append: "run d (es @ es') s = run d es' (run d es s)"
  by (induction es arbitrary: s) simp_all

text \<open>A create whose domain fields are all scalars, computed.\<close>

lemma valid_value_scalar: "valid_value a v \<Longrightarrow> scalar v"
  by (cases a; cases v) simp_all

lemma valid_fields_scalar: "valid_fields R b \<Longrightarrow> list_all scalar (domain_args R b)"
  by (auto simp: valid_fields_def domain_args_def list_all_iff valid_value_scalar)

lemma scalar_BindValue: "scalar v \<Longrightarrow> \<exists>b. BindValue v = Some b"
  by (cases v) simp_all

lemma listed_value_scalar:
  "scalar v \<Longrightarrow> json_of_sql (apply_affinity d a (the (BindValue v))) = listed_value d a v"
  by (cases v) (simp_all add: listed_value_def)

lemma create_scalars:
  assumes "route req = PostCreate R" and "userId (req_session req s) = Some u" and "u \<noteq> 0"
    and "list_all scalar (domain_args R (body req))"
  shows "handle d req s =
     (reply 200 (json [(''id'', JNum (real (Suc (high_water (table_of R (db s))))))]),
      s\<lparr>db := set_table R
        \<lparr>t_rows = t_rows (table_of R (db s)) @
           [\<lparr>r_id = Suc (high_water (table_of R (db s))), r_user_id = SNum (real u),
             r_fields = map2 (apply_affinity d) (map snd (columns R))
                          (map (\<lambda>v. the (BindValue v)) (domain_args R (body req))),
             r_created_at = now req\<rparr>],
         t_seq = Suc (high_water (table_of R (db s)))\<rparr> (db s)\<rparr>)"
proof -
  have len: "length (domain_args R (body req)) = length (map snd (columns R))" by simp
  show ?thesis
    unfolding create_unfold[OF assms(1)] insert_row_scalars[OF assms(4) len]
    using assms(2,3) by simp
qed

lemma list_authenticated:
  assumes "route g = GetList R" and "userId (req_session g s) = Some u" and "u \<noteq> 0"
  shows "fst (handle d g s) =
     \<lparr>status = 200,
      payload = Rows (map listed (order_by_created_at_desc (t_rows (table_of R (db s))))),
      set_cookie = None\<rparr>"
  unfolding list_unfold[OF assms(1)] using assms(2,3) by simp

text \<open>The concrete states, computed.\<close>

lemma seeded_eq:
  "seeded = \<lparr>db = \<lparr>users = \<lparr>u_rows = [\<lparr>u_id = 1, u_username = js ''admin'',
                 u_password = js ''bcrypt:admin123'', u_role = js ''admin''\<rparr>], u_seq = 1\<rparr>,
          inspections = empty_table, trip_reports = empty_table,
          estimates = empty_table, minutes = empty_table\<rparr>, sessions = Map.empty\<rparr>"
  by (simp add: seeded_def boot_def seed_def empty_database_def insert_user_def autoincrement_def Let_def)

lemma logged_in_eq:
  "logged_in = seeded\<lparr>sessions := [7 \<mapsto> \<lparr>userId = Some 1, username = Some (js ''admin'')\<rparr>]\<rparr>"
  by (simp add: logged_in_def seeded_eq login_admin_def handle_def post_login_def session_of_def
      get_user_def Bind_def get_prop_def sample_deps_def empty_session_def)

lemma session_7: "req_session \<lparr>route = r, cookie = Some 7, body = b, fresh_sid = f, now = t\<rparr> logged_in
   = \<lparr>userId = Some 1, username = Some (js ''admin'')\<rparr>"
  by (simp add: logged_in_eq req_session_def session_of_def)

lemma valid_inspection_fields: "valid_fields Inspections inspection_fields"
  by (simp add: valid_fields_def inspection_fields_def get_prop_def)

lemma scalar_inspection_fields: "list_all scalar (domain_args Inspections inspection_fields)"
  by (rule valid_fields_scalar[OF valid_inspection_fields])

lemma stored_inspection_fields:
  "map2 (apply_affinity d) (map snd (columns Inspections))
     (map (\<lambda>v. the (BindValue v)) (domain_args Inspections inspection_fields)) =
   [SText (js ''Bridge''), SText (js ''2024-05-01''), SText (js ''Osaka''), SText (js ''crack''),
    SText (js ''pending'')]"
  by (simp add: domain_args_def inspection_fields_def get_prop_def)

lemma first_post:
  "handle sample_deps (post_inspection (Some 7) inspection_fields 200) logged_in =
     (reply 200 (json [(''id'', JNum 1)]),
      logged_in\<lparr>db := (db logged_in)\<lparr>inspections :=
        \<lparr>t_rows = [\<lparr>r_id = 1, r_user_id = SNum 1,
            r_fields = [SText (js ''Bridge''), SText (js ''2024-05-01''), SText (js ''Osaka''),
                        SText (js ''crack''), SText (js ''pending'')],
            r_created_at = 200\<rparr>], t_seq = 1\<rparr>\<rparr>\<rparr>)"
proof -
  have r: "route (post_inspection (Some 7) inspection_fields 200) = PostCreate Inspections"
    by (simp add: post_inspection_def)
  have u: "userId (req_session (post_inspection (Some 7) inspection_fields 200) logged_in) = Some 1"
    by (simp add: post_inspection_def session_7)
  have sc: "list_all scalar (domain_args Inspections (body (post_inspection (Some 7) inspection_fields 200)))"
    by (simp add: post_inspection_def scalar_inspection_fields)
  have b: "body (post_inspection (Some 7) inspection_fields 200) = inspection_fields"
    by (simp add: post_inspection_def)
  have hw: "high_water (table_of Inspections (db logged_in)) = 0"
    by (simp add: logged_in_eq seeded_eq high_water_def empty_table_def)
  have nz: "(1::nat) \<noteq> 0" by simp
  show ?thesis
    unfolding create_scalars[OF r u nz sc, of sample_deps] b stored_inspection_fields hw
    by (simp add: post_inspection_def logged_in_eq seeded_eq empty_table_def)
qed

lemma one_inspection_eq:
  "one_inspection = logged_in\<lparr>db := (db logged_in)\<lparr>inspections :=
      \<lparr>t_rows = [\<lparr>r_id = 1, r_user_id = SNum 1,
          r_fields = [SText (js ''Bridge''), SText (js ''2024-05-01''), SText (js ''Osaka''),
                      SText (js ''crack''), SText (js ''pending'')],
          r_created_at = 200\<rparr>], t_seq = 1\<rparr>\<rparr>\<rparr>"
  by (simp add: one_inspection_def first_post)

lemma second_post:
  "handle sample_deps (post_inspection (Some 7) inspection_fields t) one_inspection =
     (reply 200 (json [(''id'', JNum 2)]),
      logged_in\<lparr>db := (db logged_in)\<lparr>inspections :=
        \<lparr>t_rows = [\<lparr>r_id = 1, r_user_id = SNum 1,
            r_fields = [SText (js ''Bridge''), SText (js ''2024-05-01''), SText (js ''Osaka''),
                        SText (js ''crack''), SText (js ''pending'')],
            r_created_at = 200\<rparr>,
           \<lparr>r_id = 2, r_user_id = SNum 1,
            r_fields = [SText (js ''Bridge''), SText (js ''2024-05-01''), SText (js ''Osaka''),
                        SText (js ''crack''), SText (js ''pending'')],
            r_created_at = t\<rparr>], t_seq = 2\<rparr>\<rparr>\<rparr>)"
proof -
  have r: "route (post_inspection (Some 7) inspection_fields t) = PostCreate Inspections"
    by (simp add: post_inspection_def)
  have u: "userId (req_session (post_inspection (Some 7) inspection_fields t) one_inspection) = Some 1"
    by (simp add: one_inspection_eq logged_in_eq req_session_def session_of_def post_inspection_def)
  have sc: "list_all scalar (domain_args Inspections (body (post_inspection (Some 7) inspection_fields t)))"
    by (simp add: post_inspection_def scalar_inspection_fields)
  have b: "body (post_inspection (Some 7) inspection_fields t) = inspection_fields"
    by (simp add: post_inspection_def)
  have hw: "high_water (table_of Inspections (db one_inspection)) = 1"
    by (simp add: one_inspection_eq high_water_def)
  have nz: "(1::nat) \<noteq> 0" by simp
  show ?thesis
    unfolding create_scalars[OF r u nz sc, of sample_deps] b stored_inspection_fields hw
    by (simp add: post_inspection_def one_inspection_eq)
qed

lemma list_after_second_post:
  "fst (handle sample_deps list_inspections
      (snd (handle sample_deps (post_inspection (Some 7) inspection_fields t) one_inspection))) =
   \<lparr>status = 200,
    payload = Rows (map listed (order_by_created_at_desc
      [\<lparr>r_id = 1, r_user_id = SNum 1,
            r_fields = [SText (js ''Bridge''), SText (js ''2024-05-01''), SText (js ''Osaka''),
                        SText (js ''crack''), SText (js ''pending'')],
            r_created_at = 200\<rparr>,
           \<lparr>r_id = 2, r_user_id = SNum 1,
            r_fields = [SText (js ''Bridge''), SText (js ''2024-05-01''), SText (js ''Osaka''),
                        SText (js ''crack''), SText (js ''pending'')],
            r_created_at = t\<rparr>])),
    set_cookie = None\<rparr>"
proof -
  have l: "route list_inspections = GetList Inspections" by (simp add: list_inspections_def)
  show ?thesis
    unfolding second_post list_unfold[OF l]
    by (simp add: list_inspections_def logged_in_eq req_session_def session_of_def)
qed


section \<open>Requests without a session\<close>

text \<open>
  \<^bold>\<open>C1.\<close> For every resource \<open>R\<close>, a \<^verbatim>\<open>POST /api/R\<close> whose session has no \<^verbatim>\<open>userId\<close>
  is answered with status 401 and leaves the whole server state as it was; in particular
  the number of rows of \<open>R\<close> is unchanged.
\<close>

theorem unauthenticated_create_rejected:
  assumes "route req = PostCreate R" and "userId (req_session req s) = None"
  shows "status (fst (handle d req s)) = 401 \<and> snd (handle d req s) = s \<and>
     length (t_rows (table_of R (db (snd (handle d req s))))) = length (t_rows (table_of R (db s)))"
  unfolding create_unfold[OF assms(1)] using assms(2) by (simp add: reply_def)

text \<open>C1 at a concrete input: a create without a cookie against the running server.\<close>

theorem unauthenticated_create_rejected_witness:
  "route (post_inspection None inspection_fields 200) = PostCreate Inspections \<and>
   userId (req_session (post_inspection None inspection_fields 200) logged_in) = None \<and>
   status (fst (handle sample_deps (post_inspection None inspection_fields 200) logged_in)) = 401 \<and>
   snd (handle sample_deps (post_inspection None inspection_fields 200) logged_in) = logged_in"
proof -
  have h1: "route (post_inspection None inspection_fields 200) = PostCreate Inspections"
    by (simp add: post_inspection_def)
  have h2: "userId (req_session (post_inspection None inspection_fields 200) logged_in) = None"
    by (simp add: post_inspection_def req_session_def session_of_def empty_session_def)
  from unauthenticated_create_rejected[OF h1 h2, of sample_deps] h1 h2 show ?thesis by simp
qed


section \<open>Create, then list\<close>

text \<open>The listing is a rearrangement of the table, in descending order of
  \<^verbatim>\<open>created_at\<close>; in such a list an element with a larger key stands before one with a
  smaller key.\<close>

lemma set_order_by [simp]: "set (order_by_created_at_desc rs) = set rs"
  by (simp add: order_by_created_at_desc_def)

lemma sorted_order_by: "sorted (rev (map r_created_at (order_by_created_at_desc rs)))"
  by (simp add: order_by_created_at_desc_def rev_map)

lemma descending_precedes:
  assumes "sorted (rev (map f L))" and "a \<in> set L" and "b \<in> set L" and "f b < (f a :: nat)"
  shows "\<exists>pre post. L = pre @ a # post \<and> b \<in> set post"
proof -
  from assms(2) obtain pre post where L: "L = pre @ a # post"
    by (meson split_list)
  have "sorted (rev (map f post) @ f a # rev (map f pre))"
    using assms(1) L by simp
  then have "\<forall>x\<in>set pre. f a \<le> f x"
    by (auto simp: sorted_append)
  then have "b \<notin> set pre" using assms(4) by auto
  moreover have "b \<noteq> a" using assms(4) by auto
  ultimately have "b \<in> set post" using assms(3) L by auto
  with L show ?thesis by blast
qed

text \<open>Rows are only ever appended to a table.\<close>

lemma rows_handle:
  "\<exists>extra. t_rows (table_of R (db (snd (handle d req s)))) = t_rows (table_of R (db s)) @ extra"
proof (cases "\<exists>R'. route req = PostCreate R'")
  case False
  then show ?thesis using db_handle_other[of req d s] by simp
next
  case True
  then obtain R' where r: "route req = PostCreate R'" by blast
  from create_state[OF r, of d s] show ?thesis
  proof
    assume "snd (handle d req s) = s"
    then show ?thesis by simp
  next
    assume "\<exists>u i t. insert_row d (map snd (columns R')) (JNum (real u) # domain_args R' (body req))
             (now req) (table_of R' (db s)) = Some (i, t) \<and>
           snd (handle d req s) = s\<lparr>db := set_table R' t (db s)\<rparr>"
    then obtain u i t where
      ins: "insert_row d (map snd (columns R')) (JNum (real u) # domain_args R' (body req))
             (now req) (table_of R' (db s)) = Some (i, t)"
      and st: "snd (handle d req s) = s\<lparr>db := set_table R' t (db s)\<rparr>" by blast
    from insert_row_Some[OF ins] obtain r0 where
      t: "t = \<lparr>t_rows = t_rows (table_of R' (db s)) @ [r0], t_seq = i\<rparr>" by blast
    show ?thesis
    proof (cases "R = R'")
      case True
      then show ?thesis using st t by simp
    next
      case False
      then show ?thesis using st by (simp add: table_of_set_table_other)
    qed
  qed
qed

lemma rows_step:
  "\<exists>extra. t_rows (table_of R (db (step d e s))) = t_rows (table_of R (db s)) @ extra"
  by (cases e) (simp_all add: boot_def rows_handle)

lemma rows_run:
  "\<exists>extra. t_rows (table_of R (db (run d es s))) = t_rows (table_of R (db s)) @ extra"
proof (induction es arbitrary: s)
  case Nil
  show ?case by simp
next
  case (Cons e es)
  from rows_step[of R d e s] obtain x where
    x: "t_rows (table_of R (db (step d e s))) = t_rows (table_of R (db s)) @ x" ..
  from Cons[of "step d e s"] obtain y where
    "t_rows (table_of R (db (run d es (step d e s)))) = t_rows (table_of R (db (step d e s))) @ y" ..
  with x show ?case by simp
qed

text \<open>What a listing returns for the fields of a create.\<close>

lemma listed_fields_scalars:
  assumes "list_all scalar (domain_args R b)"
  shows "map json_of_sql (map2 (apply_affinity d) (map snd (columns R))
            (map (\<lambda>v. the (BindValue v)) (domain_args R b))) =
         map (\<lambda>c. listed_value d (snd c) (get_prop b (fst c))) (columns R)"
proof -
  have "\<forall>c\<in>set cs. scalar (get_prop b (fst c)) \<Longrightarrow>
        map json_of_sql (map2 (apply_affinity d) (map snd cs)
            (map (\<lambda>v. the (BindValue v)) (map (\<lambda>c. get_prop b (fst c)) cs))) =
        map (\<lambda>c. listed_value d (snd c) (get_prop b (fst c))) cs"
    for cs :: "(string \<times> affinity) list"
  proof (induction cs)
    case Nil
    show ?case by simp
  next
    case (Cons c cs)
    then have "scalar (get_prop b (fst c))" by simp
    from listed_value_scalar[OF this, of d "snd c"] Cons show ?case by simp
  qed
  then show ?thesis using assms by (simp add: domain_args_def list_all_iff)
qed

lemma decimal_well_formed: "decimal t \<Longrightarrow> toWellFormed t = t"
proof (rule toWellFormed_no_surrogate)
  assume "decimal t"
  then show "\<forall>c\<in>set t. c < 55296" by (auto simp: decimal_def list_all_iff)
qed

lemma round_trips_listed: "round_trips a v \<Longrightarrow> listed_value d a v = v"
proof (cases a)
  case TEXT
  assume "round_trips a v"
  with TEXT show ?thesis by (cases v) (simp_all add: listed_value_def)
next
  case INTEGER
  assume rt: "round_trips a v"
  show ?thesis
  proof (cases v)
    case (JNumber n)
    with rt INTEGER show ?thesis by (cases n) (simp_all add: listed_value_def)
  qed (use rt INTEGER in simp_all)
qed

lemma decimal_listed:
  "decimal t \<Longrightarrow> listed_value d INTEGER (JStr t) = JNum (real (decimal_value t))"
  by (simp add: listed_value_def decimal_well_formed)

text \<open>The first create on a table of the logged-in server, and the listing after it.\<close>

lemma tables_logged_in: "table_of R (db logged_in) = empty_table"
  by (cases R) (simp_all add: logged_in_eq seeded_eq)

lemma first_create_listed:
  assumes "route p = PostCreate R" and "cookie p = Some 7"
    and "list_all scalar (domain_args R (body p))"
    and "route g = GetList R" and "cookie g = Some 7"
  shows "fst (handle sample_deps p logged_in) = reply 200 (json [(''id'', JNum 1)]) \<and>
     payload (fst (handle sample_deps g (snd (handle sample_deps p logged_in)))) =
       Rows [\<lparr>l_id = 1, l_user_id = JNum 1,
              l_fields = map (\<lambda>c. listed_value sample_deps (snd c) (get_prop (body p) (fst c)))
                           (columns R),
              l_created_at = now p\<rparr>]"
proof -
  have sess: "req_session q logged_in = \<lparr>userId = Some 1, username = Some (js ''admin'')\<rparr>"
    if "cookie q = Some 7" for q
    using that by (simp add: logged_in_eq req_session_def session_of_def)
  have u: "userId (req_session p logged_in) = Some 1" by (simp add: sess[OF assms(2)])
  have nz: "(1::nat) \<noteq> 0" by simp
  have hw: "high_water (table_of R (db logged_in)) = 0"
    by (simp add: tables_logged_in high_water_def empty_table_def)
  define s1 where "s1 = snd (handle sample_deps p logged_in)"
  have h: "handle sample_deps p logged_in =
      (reply 200 (json [(''id'', JNum 1)]),
       logged_in\<lparr>db := set_table R
        \<lparr>t_rows = [\<lparr>r_id = 1, r_user_id = SNum 1,
             r_fields = map2 (apply_affinity sample_deps) (map snd (columns R))
                          (map (\<lambda>v. the (BindValue v)) (domain_args R (body p))),
             r_created_at = now p\<rparr>],
         t_seq = 1\<rparr> (db logged_in)\<rparr>)"
    unfolding create_scalars[OF assms(1) u nz assms(3), of sample_deps] hw
    by (simp add: tables_logged_in empty_table_def)
  have u2: "userId (req_session g (snd (handle sample_deps p logged_in))) = Some 1"
  proof -
    have "req_session g (snd (handle sample_deps p logged_in)) = req_session g logged_in"
      by (rule req_session_cong) (simp_all add: h)
    then show ?thesis by (simp add: sess[OF assms(5)])
  qed
  have "payload (fst (handle sample_deps g (snd (handle sample_deps p logged_in)))) =
       Rows (map listed (order_by_created_at_desc
          (t_rows (table_of R (db (snd (handle sample_deps p logged_in)))))))"
    by (simp add: list_authenticated[OF assms(4) u2 nz])
  also have "\<dots> = Rows [\<lparr>l_id = 1, l_user_id = JNum 1,
              l_fields = map (\<lambda>c. listed_value sample_deps (snd c) (get_prop (body p) (fst c)))
                           (columns R),
              l_created_at = now p\<rparr>]"
    using listed_fields_scalars[OF assms(3), of sample_deps]
    by (simp add: h order_by_created_at_desc_def listed_def)
  finally show ?thesis using h by simp
qed

lemma decimal_1000: "decimal (js ''1000'')" "decimal_value (js ''1000'') = 1000"
  by (simp_all add: decimal_def decimal_value_def js_def)

text \<open>
  \<^bold>\<open>C2, as stated, fails\<close>, in the order and in the values.
  \<^item> Two inspections are created in the same second (clock reading 200). The second
    create returns id 2, and the listing that follows shows the row with id 1, inserted
    before, ahead of the new row: the new row does not appear before every previously
    inserted row, and the listing is not strictly descending by creation time.
  \<^item> The form of the client submits the amount of an estimate as the string
    \<^verbatim>\<open>"1000"\<close>; the listing returns the number 1000.
  \<^item> A trip report is submitted with the expenses \<^verbatim>\<open>1e309\<close>, which \<^verbatim>\<open>express.json()\<close>
    parses to \<^verbatim>\<open>Infinity\<close>, and a destination that is an unpaired surrogate; the
    listing returns \<^verbatim>\<open>null\<close> for the expenses and U+FFFD for the destination.
\<close>

theorem same_second_creates_listed_oldest_first:
  "t_rows (inspections (db one_inspection)) =
     [\<lparr>r_id = 1, r_user_id = SNum 1,
       r_fields = [SText (js ''Bridge''), SText (js ''2024-05-01''), SText (js ''Osaka''),
                   SText (js ''crack''), SText (js ''pending'')],
       r_created_at = 200\<rparr>] \<and>
   fst (handle sample_deps (post_inspection (Some 7) inspection_fields 200) one_inspection) =
     reply 200 (json [(''id'', JNum 2)]) \<and>
   payload (fst (handle sample_deps list_inspections
      (snd (handle sample_deps (post_inspection (Some 7) inspection_fields 200) one_inspection)))) =
     Rows [\<lparr>l_id = 1, l_user_id = JNum 1,
            l_fields = [JStr (js ''Bridge''), JStr (js ''2024-05-01''), JStr (js ''Osaka''),
                        JStr (js ''crack''), JStr (js ''pending'')],
            l_created_at = 200\<rparr>,
           \<lparr>l_id = 2, l_user_id = JNum 1,
            l_fields = [JStr (js ''Bridge''), JStr (js ''2024-05-01''), JStr (js ''Osaka''),
                        JStr (js ''crack''), JStr (js ''pending'')],
            l_created_at = 200\<rparr>] \<and>
   get_prop (body post_estimate) ''amount'' = JStr (js ''1000'') \<and>
   fst (handle sample_deps post_estimate logged_in) = reply 200 (json [(''id'', JNum 1)]) \<and>
   payload (fst (handle sample_deps list_estimates (snd (handle sample_deps post_estimate logged_in)))) =
     Rows [\<lparr>l_id = 1, l_user_id = JNum 1,
            l_fields = [JStr (js ''ACME''), JStr (js ''Bridge''), JNum 1000, JStr (js ''steel''),
                        JStr (js ''draft'')],
            l_created_at = 200\<rparr>] \<and>
   get_prop (body post_trip_report) ''destination'' = JStr [55296] \<and>
   get_prop (body post_trip_report) ''expenses'' = JNumber PosInfinity \<and>
   fst (handle sample_deps post_trip_report logged_in) = reply 200 (json [(''id'', JNum 1)]) \<and>
   payload (fst (handle sample_deps list_trip_reports
      (snd (handle sample_deps post_trip_report logged_in)))) =
     Rows [\<lparr>l_id = 1, l_user_id = JNum 1,
            l_fields = [JStr [65533], JStr (js ''2024-05-01''), JStr (js ''2024-05-02''),
                        JStr (js ''survey''), JStr (js ''done''), JNull],
            l_created_at = 200\<rparr>]"
proof (intro conjI)
  show "t_rows (inspections (db one_inspection)) =
     [\<lparr>r_id = 1, r_user_id = SNum 1,
       r_fields = [SText (js ''Bridge''), SText (js ''2024-05-01''), SText (js ''Osaka''),
                   SText (js ''crack''), SText (js ''pending'')],
       r_created_at = 200\<rparr>]"
    by (simp add: one_inspection_eq)
  show "fst (handle sample_deps (post_inspection (Some 7) inspection_fields 200) one_inspection) =
     reply 200 (json [(''id'', JNum 2)])"
    by (simp add: second_post)
  show "payload (fst (handle sample_deps list_inspections
      (snd (handle sample_deps (post_inspection (Some 7) inspection_fields 200) one_inspection)))) =
     Rows [\<lparr>l_id = 1, l_user_id = JNum 1,
            l_fields = [JStr (js ''Bridge''), JStr (js ''2024-05-01''), JStr (js ''Osaka''),
                        JStr (js ''crack''), JStr (js ''pending'')],
            l_created_at = 200\<rparr>,
           \<lparr>l_id = 2, l_user_id = JNum 1,
            l_fields = [JStr (js ''Bridge''), JStr (js ''2024-05-01''), JStr (js ''Osaka''),
                        JStr (js ''crack''), JStr (js ''pending'')],
            l_created_at = 200\<rparr>]"
    unfolding list_after_second_post by (simp add: order_by_created_at_desc_def listed_def)
  show "get_prop (body post_estimate) ''amount'' = JStr (js ''1000'')"
    by (simp add: post_estimate_def estimate_fields_def get_prop_def)
  show "fst (handle sample_deps post_estimate logged_in) = reply 200 (json [(''id'', JNum 1)])"
    using first_create_listed[of post_estimate Estimates list_estimates]
    by (simp add: post_estimate_def list_estimates_def estimate_fields_def domain_args_def get_prop_def)
  show "payload (fst (handle sample_deps list_estimates (snd (handle sample_deps post_estimate logged_in)))) =
     Rows [\<lparr>l_id = 1, l_user_id = JNum 1,
            l_fields = [JStr (js ''ACME''), JStr (js ''Bridge''), JNum 1000, JStr (js ''steel''),
                        JStr (js ''draft'')],
            l_created_at = 200\<rparr>]"
    using first_create_listed[of post_estimate Estimates list_estimates]
    by (simp add: post_estimate_def list_estimates_def estimate_fields_def domain_args_def
        get_prop_def listed_value_def decimal_1000)
  show "get_prop (body post_trip_report) ''destination'' = JStr [55296]"
    by (simp add: post_trip_report_def trip_fields_def get_prop_def)
  show "get_prop (body post_trip_report) ''expenses'' = JNumber PosInfinity"
    by (simp add: post_trip_report_def trip_fields_def get_prop_def)
  show "fst (handle sample_deps post_trip_report logged_in) = reply 200 (json [(''id'', JNum 1)])"
    using first_create_listed[of post_trip_report TripReports list_trip_reports]
    by (simp add: post_trip_report_def list_trip_reports_def trip_fields_def domain_args_def get_prop_def)
  show "payload (fst (handle sample_deps list_trip_reports
      (snd (handle sample_deps post_trip_report logged_in)))) =
     Rows [\<lparr>l_id = 1, l_user_id = JNum 1,
            l_fields = [JStr [65533], JStr (js ''2024-05-01''), JStr (js ''2024-05-02''),
                        JStr (js ''survey''), JStr (js ''done''), JNull],
            l_created_at = 200\<rparr>]"
    using first_create_listed[of post_trip_report TripReports list_trip_reports]
    by (simp add: post_trip_report_def list_trip_reports_def trip_fields_def domain_args_def
        get_prop_def listed_value_def high_surrogate_def low_surrogate_def)
qed

text \<open>
  \<^bold>\<open>C2, amended.\<close> For every resource \<open>R\<close>, an authenticated \<^verbatim>\<open>POST /api/R\<close> with a complete
  valid field set (every field present, a string in every TEXT column, a number or a
  string in every INTEGER column) returns \<^verbatim>\<open>{id}\<close>. Every later authenticated
  \<^verbatim>\<open>GET /api/R\<close>, after any boots and requests, returns a list that contains a row with
  that id, the user id of the session and the clock reading of the create. In that row
  a field submitted as a string without unpaired surrogate in a TEXT column, or as a
  finite number in an INTEGER column, equals the submitted value, and a field submitted
  in an INTEGER column as a decimal literal of at most 15 digits is the number it
  spells (negative zero is 0). The list is in descending, not necessarily strictly descending, order of
  \<^verbatim>\<open>created_at\<close>, and the new row stands before every previously inserted row whose
  \<^verbatim>\<open>created_at\<close> is strictly earlier than the clock reading of the create.
\<close>

theorem create_then_list:
  assumes "route req = PostCreate R" and "userId (req_session req s) = Some u" and "u \<noteq> 0"
    and "valid_fields R (body req)"
    and "route g = GetList R"
    and "userId (req_session g (run d es (snd (handle d req s)))) = Some v" and "v \<noteq> 0"
  shows "\<exists>i r L.
      fst (handle d req s) = reply 200 (json [(''id'', JNum (real i))]) \<and>
      fst (handle d g (run d es (snd (handle d req s)))) =
        \<lparr>status = 200, payload = Rows L, set_cookie = None\<rparr> \<and>
      r \<in> set L \<and> l_id r = i \<and> l_user_id r = JNum (real u) \<and> l_created_at r = now req \<and>
      l_fields r = map (\<lambda>c. listed_value d (snd c) (get_prop (body req) (fst c))) (columns R) \<and>
      (\<forall>k < length (columns R).
         round_trips (snd (columns R ! k)) (get_prop (body req) (fst (columns R ! k))) \<longrightarrow>
         l_fields r ! k = get_prop (body req) (fst (columns R ! k))) \<and>
      (\<forall>k < length (columns R). \<forall>t.
         snd (columns R ! k) = INTEGER \<longrightarrow>
         get_prop (body req) (fst (columns R ! k)) = JStr t \<longrightarrow> decimal t \<longrightarrow>
         l_fields r ! k = JNum (real (decimal_value t))) \<and>
      (\<forall>k < length (columns R).
         snd (columns R ! k) = INTEGER \<longrightarrow>
         get_prop (body req) (fst (columns R ! k)) = JNumber NegZero \<longrightarrow>
         l_fields r ! k = JNum 0) \<and>
      sorted (rev (map l_created_at L)) \<and>
      (\<forall>old\<in>set (t_rows (table_of R (db s))). r_created_at old < now req \<longrightarrow>
         (\<exists>pre post. L = pre @ r # post \<and> listed old \<in> set post))"
proof -
  define t where "t = table_of R (db s)"
  define i where "i = Suc (high_water t)"
  define F where "F = map2 (apply_affinity d) (map snd (columns R))
                        (map (\<lambda>v. the (BindValue v)) (domain_args R (body req)))"
  define r0 where "r0 = \<lparr>r_id = i, r_user_id = SNum (real u), r_fields = F, r_created_at = now req\<rparr>"
  define s1 where "s1 = s\<lparr>db := set_table R \<lparr>t_rows = t_rows t @ [r0], t_seq = i\<rparr> (db s)\<rparr>"
  define s2 where "s2 = run d es s1"
  define rows2 where "rows2 = t_rows (table_of R (db s2))"
  define L where "L = map listed (order_by_created_at_desc rows2)"
  define r where "r = listed r0"
  have sc: "list_all scalar (domain_args R (body req))"
    by (rule valid_fields_scalar[OF assms(4)])
  have h: "handle d req s = (reply 200 (json [(''id'', JNum (real i))]), s1)"
    using create_scalars[OF assms(1-3) sc, of d] by (simp add: t_def i_def F_def r0_def s1_def)
  from rows_run[of R d es s1] obtain extra where
    ex: "rows2 = t_rows t @ [r0] @ extra"
    by (auto simp: rows2_def s2_def s1_def)
  have u2: "userId (req_session g s2) = Some v" using assms(6) h by (simp add: s2_def)
  have g: "fst (handle d g s2) = \<lparr>status = 200, payload = Rows L, set_cookie = None\<rparr>"
    using list_authenticated[OF assms(5) u2 assms(7), of d] by (simp add: L_def rows2_def)
  have r0L: "r0 \<in> set (order_by_created_at_desc rows2)" using ex by simp
  have rL: "r \<in> set L" using r0L by (simp add: L_def r_def)
  have keys: "map l_created_at L = map r_created_at (order_by_created_at_desc rows2)"
    by (simp add: L_def listed_def comp_def)
  have srt: "sorted (rev (map l_created_at L))" unfolding keys by (rule sorted_order_by)
  have ord: "\<exists>pre post. L = pre @ r # post \<and> listed old \<in> set post"
    if "old \<in> set (t_rows t)" and "r_created_at old < now req" for old
  proof -
    have "\<exists>pre post. order_by_created_at_desc rows2 = pre @ r0 # post \<and> old \<in> set post"
    proof (rule descending_precedes[OF sorted_order_by r0L])
      show "old \<in> set (order_by_created_at_desc rows2)" using that(1) ex by simp
      show "r_created_at old < r_created_at r0" using that(2) by (simp add: r0_def)
    qed
    then obtain pre post where "order_by_created_at_desc rows2 = pre @ r0 # post" "old \<in> set post"
      by blast
    then have "L = map listed pre @ r # map listed post \<and> listed old \<in> set (map listed post)"
      by (simp add: L_def r_def)
    then show ?thesis by blast
  qed
  have fields: "l_fields r = map (\<lambda>c. listed_value d (snd c) (get_prop (body req) (fst c))) (columns R)"
    using listed_fields_scalars[OF sc, of d] by (simp add: r_def listed_def r0_def F_def)
  have rt: "\<forall>k < length (columns R).
         round_trips (snd (columns R ! k)) (get_prop (body req) (fst (columns R ! k))) \<longrightarrow>
         l_fields r ! k = get_prop (body req) (fst (columns R ! k))"
    by (simp add: fields round_trips_listed)
  have dec: "\<forall>k < length (columns R). \<forall>t.
         snd (columns R ! k) = INTEGER \<longrightarrow>
         get_prop (body req) (fst (columns R ! k)) = JStr t \<longrightarrow> decimal t \<longrightarrow>
         l_fields r ! k = JNum (real (decimal_value t))"
    by (simp add: fields decimal_listed)
  have nz: "\<forall>k < length (columns R).
         snd (columns R ! k) = INTEGER \<longrightarrow>
         get_prop (body req) (fst (columns R ! k)) = JNumber NegZero \<longrightarrow>
         l_fields r ! k = JNum 0"
    by (simp add: fields listed_value_def)
  have r1: "fst (handle d req s) = reply 200 (json [(''id'', JNum (real i))])" using h by simp
  have r2: "fst (handle d g (run d es (snd (handle d req s)))) =
        \<lparr>status = 200, payload = Rows L, set_cookie = None\<rparr>"
    using h g by (simp add: s2_def)
  have r3: "l_id r = i" "l_user_id r = JNum (real u)" "l_created_at r = now req"
    by (simp_all add: r_def listed_def r0_def)
  have r4: "\<forall>old\<in>set (t_rows (table_of R (db s))). r_created_at old < now req \<longrightarrow>
         (\<exists>pre post. L = pre @ r # post \<and> listed old \<in> set post)"
    using ord by (simp add: t_def)
  show ?thesis
    by (rule exI[of _ i], rule exI[of _ r], rule exI[of _ L])
       (intro conjI r1 r2 r3 r4 rL srt fields rt dec nz)
qed


text \<open>C2 amended at a concrete input: a second inspection created 50 seconds after the
  first one, and listed after one more request.\<close>

theorem create_then_list_witness:
  "valid_fields Inspections inspection_fields \<and>
   (\<exists>old\<in>set (t_rows (table_of Inspections (db one_inspection))). r_created_at old < 250) \<and>
   (\<exists>i r L.
      fst (handle sample_deps (post_inspection (Some 7) inspection_fields 250) one_inspection) =
        reply 200 (json [(''id'', JNum (real i))]) \<and>
      fst (handle sample_deps list_inspections
            (run sample_deps [Request list_inspections]
               (snd (handle sample_deps (post_inspection (Some 7) inspection_fields 250)
                      one_inspection)))) =
        \<lparr>status = 200, payload = Rows L, set_cookie = None\<rparr> \<and>
      r \<in> set L \<and> l_id r = i \<and>
      l_fields r = [JStr (js ''Bridge''), JStr (js ''2024-05-01''), JStr (js ''Osaka''),
                    JStr (js ''crack''), JStr (js ''pending'')] \<and>
      (\<forall>old\<in>set (t_rows (table_of Inspections (db one_inspection))).
         \<exists>pre post. L = pre @ r # post \<and> listed old \<in> set post))"
proof -
  let ?req = "post_inspection (Some 7) inspection_fields 250"
  have h1: "route ?req = PostCreate Inspections" by (simp add: post_inspection_def)
  have h2: "userId (req_session ?req one_inspection) = Some 1"
    by (simp add: one_inspection_eq logged_in_eq req_session_def session_of_def post_inspection_def)
  have h3: "(1::nat) \<noteq> 0" by simp
  have h4: "valid_fields Inspections (body ?req)"
    by (simp add: post_inspection_def valid_inspection_fields)
  have h5: "route list_inspections = GetList Inspections" by (simp add: list_inspections_def)
  have idle: "run sample_deps [Request list_inspections] st = st" for st
    by (simp add: list_unfold[OF h5] split: option.splits)
  have h6: "userId (req_session list_inspections
      (run sample_deps [Request list_inspections] (snd (handle sample_deps ?req one_inspection)))) = Some 1"
    unfolding idle second_post
    by (simp add: list_inspections_def logged_in_eq req_session_def session_of_def)
  have old: "\<forall>old\<in>set (t_rows (table_of Inspections (db one_inspection))). r_created_at old < now ?req"
    by (simp add: one_inspection_eq post_inspection_def)
  have f: "map (\<lambda>c. listed_value sample_deps (snd c) (get_prop (body ?req) (fst c))) (columns Inspections) =
      [JStr (js ''Bridge''), JStr (js ''2024-05-01''), JStr (js ''Osaka''), JStr (js ''crack''),
       JStr (js ''pending'')]"
    by (simp add: post_inspection_def inspection_fields_def get_prop_def listed_value_def)
  have ex: "\<exists>old\<in>set (t_rows (table_of Inspections (db one_inspection))). r_created_at old < 250"
    by (simp add: one_inspection_eq)
  from create_then_list[OF h1 h2 h3 h4 h5 h6 h3] obtain i r L where
    c1: "fst (handle sample_deps ?req one_inspection) = reply 200 (json [(''id'', JNum (real i))])"
    and c2: "fst (handle sample_deps list_inspections
        (run sample_deps [Request list_inspections] (snd (handle sample_deps ?req one_inspection)))) =
        \<lparr>status = 200, payload = Rows L, set_cookie = None\<rparr>"
    and c3: "r \<in> set L" and c4: "l_id r = i"
    and c5: "l_fields r = map (\<lambda>c. listed_value sample_deps (snd c) (get_prop (body ?req) (fst c)))
                    (columns Inspections)"
    and c6: "\<forall>old\<in>set (t_rows (table_of Inspections (db one_inspection))). r_created_at old < now ?req \<longrightarrow>
         (\<exists>pre post. L = pre @ r # post \<and> listed old \<in> set post)"
    by blast
  have c5': "l_fields r = [JStr (js ''Bridge''), JStr (js ''2024-05-01''), JStr (js ''Osaka''),
                    JStr (js ''crack''), JStr (js ''pending'')]"
    using c5 unfolding f .
  have c6': "\<forall>old\<in>set (t_rows (table_of Inspections (db one_inspection))).
         \<exists>pre post. L = pre @ r # post \<and> listed old \<in> set post"
    using c6 old by blast
  have "\<exists>i r L.
      fst (handle sample_deps ?req one_inspection) = reply 200 (json [(''id'', JNum (real i))]) \<and>
      fst (handle sample_deps list_inspections
        (run sample_deps [Request list_inspections] (snd (handle sample_deps ?req one_inspection)))) =
        \<lparr>status = 200, payload = Rows L, set_cookie = None\<rparr> \<and>
      r \<in> set L \<and> l_id r = i \<and>
      l_fields r = [JStr (js ''Bridge''), JStr (js ''2024-05-01''), JStr (js ''Osaka''),
                    JStr (js ''crack''), JStr (js ''pending'')] \<and>
      (\<forall>old\<in>set (t_rows (table_of Inspections (db one_inspection))).
         \<exists>pre post. L = pre @ r # post \<and> listed old \<in> set post)"
    by (rule exI[of _ i], rule exI[of _ r], rule exI[of _ L]) (intro conjI c1 c2 c3 c4 c5' c6')
  with valid_inspection_fields ex show ?thesis by (intro conjI)
qed


section \<open>Login\<close>

text \<open>
  The parts of C3 that hold. With the seeded credentials the login succeeds and returns
  \<^verbatim>\<open>id\<close>, \<^verbatim>\<open>username: "admin"\<close> and \<^verbatim>\<open>role\<close>, provided \<^verbatim>\<open>bcrypt\<close> accepts the
  password against the hash it made of it. When user name and password are both
  strings, a login that matches no user and a login with a wrong password get the same
  answer, status 401 with \<^verbatim>\<open>{error: 'Invalid credentials'}\<close>, and leave the state as it
  was.
\<close>

lemma login_seeded:
  assumes "compare_str d (js ''admin123'') h"
  shows "fst (handle d \<lparr>route = PostLogin, cookie = None,
                  body = [''username'' \<mapsto> JStr (js ''admin''), ''password'' \<mapsto> JStr (js ''admin123'')],
                  fresh_sid = f, now = n\<rparr> (boot h empty_database)) =
     \<lparr>status = 200,
      payload = Json (JObj [(''id'', JNum 1), (''username'', JStr (js ''admin'')), (''role'', JStr (js ''admin''))]),
      set_cookie = Some f\<rparr>"
  using assms
  by (simp add: handle_def post_login_def session_of_def boot_def seed_def empty_database_def
      insert_user_def autoincrement_def get_user_def Bind_def get_prop_def Let_def json_def)

lemma login_failures_agree:
  assumes "route req = PostLogin" and "get_prop (body req) ''password'' = JStr p"
    and "get_prop (body req) ''username'' = JStr name"
    and "\<forall>u\<in>set (u_rows (users (db s))).
           u_username u = toWellFormed name \<longrightarrow> \<not> compare_str d p (u_password u)"
  shows "handle d req s = (reply 401 (json [(''error'', JStr (js ''Invalid credentials''))]), s)"
proof (cases "find (\<lambda>u. u_username u = toWellFormed name) (u_rows (users (db s)))")
  case None
  then show ?thesis using assms(1-3)
    by (simp add: handle_def post_login_def get_user_def Bind_def split: prod.splits)
next
  case (Some u)
  then have "u \<in> set (u_rows (users (db s)))" "u_username u = toWellFormed name"
    by (auto simp: find_Some_iff)
  with assms(4) have "\<not> compare_str d p (u_password u)" by blast
  with Some show ?thesis using assms(1-3)
    by (simp add: handle_def post_login_def get_user_def Bind_def split: prod.splits)
qed

text \<open>
  \<^bold>\<open>C3.\<close> A failed login is to be answered with 401 and the same body whether or not
  the user exists. The code breaks this for a body without a string password: for
  the existing user \<^verbatim>\<open>admin\<close> the handler reaches \<^verbatim>\<open>bcrypt.compareSync(undefined, hash)\<close>,
  which throws, and the answer is status 500; for a user name that does not exist the
  conjunction short-circuits and the answer is 401. The two answers tell the client
  whether the account exists. This holds on every freshly seeded server, whatever the
  open functions compute.
\<close>

theorem login_without_password_reveals_account:
  "fst (handle d \<lparr>route = PostLogin, cookie = None, body = [''username'' \<mapsto> JStr (js ''admin'')],
                  fresh_sid = f, now = n\<rparr> (boot h empty_database)) = server_error \<and>
   fst (handle d \<lparr>route = PostLogin, cookie = None, body = [''username'' \<mapsto> JStr (js ''nobody'')],
                  fresh_sid = f, now = n\<rparr> (boot h empty_database)) =
     reply 401 (json [(''error'', JStr (js ''Invalid credentials''))])"
  by (simp add: handle_def post_login_def session_of_def boot_def seed_def empty_database_def
      insert_user_def autoincrement_def get_user_def Bind_def get_prop_def Let_def)


section \<open>Absent fields\<close>

text \<open>
  \<^bold>\<open>C4, as stated, fails.\<close> Both bodies omit domain fields of an inspection. The first
  holds a boolean: the bind throws, the answer is an error page with status 500 and no
  row is stored. The second holds an object and an array of two strings: the create
  succeeds, and the column of the absent field \<^verbatim>\<open>date\<close> holds the first string of the
  array, not \<^verbatim>\<open>NULL\<close>.
\<close>

theorem create_with_boolean_or_nested_field:
  "handle sample_deps (post_inspection (Some 7) [''project_name'' \<mapsto> JBool True] 200) logged_in =
     (server_error, logged_in) \<and>
   [''project_name'' \<mapsto> JObj [], ''location'' \<mapsto> JArr [JStr (js ''a''), JStr (js ''b'')]] ''date'' = None \<and>
   fst (handle sample_deps
          (post_inspection (Some 7)
             [''project_name'' \<mapsto> JObj [], ''location'' \<mapsto> JArr [JStr (js ''a''), JStr (js ''b'')]] 200)
          logged_in) = reply 200 (json [(''id'', JNum 1)]) \<and>
   t_rows (inspections (db (snd (handle sample_deps
          (post_inspection (Some 7)
             [''project_name'' \<mapsto> JObj [], ''location'' \<mapsto> JArr [JStr (js ''a''), JStr (js ''b'')]] 200)
          logged_in)))) =
     [\<lparr>r_id = 1, r_user_id = SNum 1,
       r_fields = [SNull, SText (js ''a''), SText (js ''b''), SNull, SNull],
       r_created_at = 200\<rparr>]"
proof -
  have r: "route (post_inspection c b t) = PostCreate Inspections" for c b t
    by (simp add: post_inspection_def)
  have u: "userId (req_session (post_inspection (Some 7) b t) logged_in) = Some 1" for b t
    by (simp add: post_inspection_def session_7)
  have a: "handle sample_deps (post_inspection (Some 7) [''project_name'' \<mapsto> JBool True] 200) logged_in =
     (server_error, logged_in)"
    unfolding create_unfold[OF r] u
    by (simp add: post_inspection_def domain_args_def get_prop_def insert_row_def Bind_def)
  have b: "handle sample_deps
          (post_inspection (Some 7)
             [''project_name'' \<mapsto> JObj [], ''location'' \<mapsto> JArr [JStr (js ''a''), JStr (js ''b'')]] 200)
          logged_in =
     (reply 200 (json [(''id'', JNum 1)]),
      logged_in\<lparr>db := (db logged_in)\<lparr>inspections :=
        \<lparr>t_rows = [\<lparr>r_id = 1, r_user_id = SNum 1,
            r_fields = [SNull, SText (js ''a''), SText (js ''b''), SNull, SNull],
            r_created_at = 200\<rparr>], t_seq = 1\<rparr>\<rparr>\<rparr>)"
    unfolding create_unfold[OF r] u
    by (simp add: post_inspection_def domain_args_def get_prop_def insert_row_def Bind_def
        autoincrement_def tables_logged_in[of Inspections, simplified] empty_table_def)
  show ?thesis unfolding a b by simp
qed

text \<open>
  \<^bold>\<open>C4, amended.\<close> For every resource \<open>R\<close>, an authenticated \<^verbatim>\<open>POST /api/R\<close> whose body holds
  strings, numbers or \<^verbatim>\<open>null\<close> in the domain fields it has, and omits any of the others,
  succeeds: the server returns \<^verbatim>\<open>{id}\<close>, one row with that id is appended to the table of
  \<open>R\<close>, every column whose field is absent from the body holds \<^verbatim>\<open>NULL\<close>, and every other
  column holds what its affinity makes of the value bound for the field. No presence or
  type check stands between the body and the store.
\<close>

theorem create_with_absent_fields:
  assumes "route req = PostCreate R" and "userId (req_session req s) = Some u" and "u \<noteq> 0"
    and "list_all scalar (domain_args R (body req))"
  shows "\<exists>i r.
      fst (handle d req s) = reply 200 (json [(''id'', JNum (real i))]) \<and>
      t_rows (table_of R (db (snd (handle d req s)))) = t_rows (table_of R (db s)) @ [r] \<and>
      r_id r = i \<and> length (r_fields r) = length (columns R) \<and>
      (\<forall>k < length (columns R).
         body req (fst (columns R ! k)) = None \<longrightarrow> r_fields r ! k = SNull) \<and>
      (\<forall>k < length (columns R). \<forall>b.
         BindValue (get_prop (body req) (fst (columns R ! k))) = Some b \<longrightarrow>
         r_fields r ! k = apply_affinity d (snd (columns R ! k)) b)"
proof -
  define t where "t = table_of R (db s)"
  define i where "i = Suc (high_water t)"
  define r where "r = \<lparr>r_id = i, r_user_id = SNum (real u),
      r_fields = map2 (apply_affinity d) (map snd (columns R))
                   (map (\<lambda>v. the (BindValue v)) (domain_args R (body req))),
      r_created_at = now req\<rparr>"
  have h: "handle d req s =
      (reply 200 (json [(''id'', JNum (real i))]),
       s\<lparr>db := set_table R \<lparr>t_rows = t_rows t @ [r], t_seq = i\<rparr> (db s)\<rparr>)"
    using create_scalars[OF assms, of d] by (simp add: t_def i_def r_def)
  have r1: "fst (handle d req s) = reply 200 (json [(''id'', JNum (real i))])" using h by simp
  have r2: "t_rows (table_of R (db (snd (handle d req s)))) = t_rows (table_of R (db s)) @ [r]"
    using h by (simp add: t_def)
  have r3: "r_id r = i" by (simp add: r_def)
  have r4: "length (r_fields r) = length (columns R)" by (simp add: r_def)
  have r5: "\<forall>k < length (columns R).
         body req (fst (columns R ! k)) = None \<longrightarrow> r_fields r ! k = SNull"
    by (simp add: r_def domain_args_def get_prop_def)
  have r6: "\<forall>k < length (columns R). \<forall>b.
         BindValue (get_prop (body req) (fst (columns R ! k))) = Some b \<longrightarrow>
         r_fields r ! k = apply_affinity d (snd (columns R ! k)) b"
    by (simp add: r_def domain_args_def)
  show ?thesis
    by (rule exI[of _ i], rule exI[of _ r]) (intro conjI r1 r2 r3 r4 r5 r6)
qed

text \<open>C4 amended at a concrete input: an inspection with a project name and nothing
  else.\<close>

theorem create_with_absent_fields_witness:
  "list_all scalar (domain_args Inspections [''project_name'' \<mapsto> JStr (js ''Bridge'')]) \<and>
   (\<exists>i r.
      fst (handle sample_deps (post_inspection (Some 7) [''project_name'' \<mapsto> JStr (js ''Bridge'')] 200)
             logged_in) = reply 200 (json [(''id'', JNum (real i))]) \<and>
      t_rows (table_of Inspections (db (snd (handle sample_deps
         (post_inspection (Some 7) [''project_name'' \<mapsto> JStr (js ''Bridge'')] 200) logged_in)))) =
        t_rows (table_of Inspections (db logged_in)) @ [r] \<and>
      r_id r = i \<and> r_fields r ! 0 = SText (js ''Bridge'') \<and>
      r_fields r ! 1 = SNull \<and> r_fields r ! 4 = SNull)"
proof -
  let ?req = "post_inspection (Some 7) [''project_name'' \<mapsto> JStr (js ''Bridge'')] 200"
  have h1: "route ?req = PostCreate Inspections" by (simp add: post_inspection_def)
  have h2: "userId (req_session ?req logged_in) = Some 1"
    by (simp add: post_inspection_def session_7)
  have h3: "(1::nat) \<noteq> 0" by simp
  have h4: "list_all scalar (domain_args Inspections (body ?req))"
    by (simp add: post_inspection_def domain_args_def get_prop_def)
  from create_with_absent_fields[OF h1 h2 h3 h4, of sample_deps] obtain i r where
    a: "fst (handle sample_deps ?req logged_in) = reply 200 (json [(''id'', JNum (real i))])"
    and b: "t_rows (table_of Inspections (db (snd (handle sample_deps ?req logged_in)))) =
        t_rows (table_of Inspections (db logged_in)) @ [r]"
    and c: "r_id r = i"
    and d: "\<forall>k < length (columns Inspections).
         body ?req (fst (columns Inspections ! k)) = None \<longrightarrow> r_fields r ! k = SNull"
    and e: "\<forall>k < length (columns Inspections). \<forall>b.
         BindValue (get_prop (body ?req) (fst (columns Inspections ! k))) = Some b \<longrightarrow>
         r_fields r ! k = apply_affinity sample_deps (snd (columns Inspections ! k)) b"
    by blast
  from d have "r_fields r ! 1 = SNull" "r_fields r ! 4 = SNull"
    by (simp_all add: post_inspection_def)
  moreover from e have "r_fields r ! 0 = SText (js ''Bridge'')"
    by (simp add: post_inspection_def get_prop_def)
  ultimately have "\<exists>i r.
      fst (handle sample_deps ?req logged_in) = reply 200 (json [(''id'', JNum (real i))]) \<and>
      t_rows (table_of Inspections (db (snd (handle sample_deps ?req logged_in)))) =
        t_rows (table_of Inspections (db logged_in)) @ [r] \<and>
      r_id r = i \<and> r_fields r ! 0 = SText (js ''Bridge'') \<and>
      r_fields r ! 1 = SNull \<and> r_fields r ! 4 = SNull" using a b c by blast
  moreover have "list_all scalar (domain_args Inspections [''project_name'' \<mapsto> JStr (js ''Bridge'')])"
    using h4 by (simp add: post_inspection_def)
  ultimately show ?thesis by blast
qed


section \<open>The seed\<close>

text \<open>The seed inserts the administrator only when no user of that name exists, and no
  request writes to \<^verbatim>\<open>users\<close>.\<close>

lemma seed_existing:
  assumes "admin_count dbs \<noteq> 0"
  shows "seed h dbs = dbs"
proof -
  from assms obtain x where "x \<in> set (u_rows (users dbs))" "u_username x = js ''admin''"
    by (auto simp: admin_count_def filter_empty_conv)
  then have "find (\<lambda>u. u_username u = js ''admin'') (u_rows (users dbs)) \<noteq> None"
    by (auto simp: find_None_iff)
  then show ?thesis by (auto simp: seed_def)
qed

lemma seed_absent:
  assumes "admin_count dbs = 0"
  shows "admin_count (seed h dbs) = 1"
proof -
  have none: "filter (\<lambda>u. u_username u = js ''admin'') (u_rows (users dbs)) = []"
    using assms by (simp add: admin_count_def)
  then have "find (\<lambda>u. u_username u = js ''admin'') (u_rows (users dbs)) = None"
    by (simp add: find_None_iff filter_empty_conv)
  then show ?thesis using none
    by (simp add: seed_def insert_user_def admin_count_def Let_def)
qed

lemma admin_count_step_le:
  "admin_count (db s) \<le> 1 \<Longrightarrow> admin_count (db (step d e s)) \<le> 1"
proof (cases e)
  case (Boot h)
  assume "admin_count (db s) \<le> 1"
  then show ?thesis using Boot seed_existing[of "db s" h] seed_absent[of "db s" h]
    by (cases "admin_count (db s) = 0") (simp_all add: boot_def)
next
  case (Request req)
  assume "admin_count (db s) \<le> 1"
  then show ?thesis using Request users_handle[of d req s] by (simp add: admin_count_def)
qed

lemma admin_count_step_eq:
  "admin_count (db s) = 1 \<Longrightarrow> admin_count (db (step d e s)) = 1"
proof (cases e)
  case (Boot h)
  assume "admin_count (db s) = 1"
  then show ?thesis using Boot seed_existing[of "db s" h] by (simp add: boot_def)
next
  case (Request req)
  assume "admin_count (db s) = 1"
  then show ?thesis using Request users_handle[of d req s] by (simp add: admin_count_def)
qed

lemma admin_count_run_le:
  "admin_count (db s) \<le> 1 \<Longrightarrow> admin_count (db (run d es s)) \<le> 1"
proof (induction es arbitrary: s)
  case Nil
  then show ?case by simp
next
  case (Cons e es)
  from Cons.prems have "admin_count (db (step d e s)) \<le> 1" by (rule admin_count_step_le)
  then have "admin_count (db (run d es (step d e s))) \<le> 1" by (rule Cons.IH)
  then show ?case by simp
qed

lemma admin_count_run_eq:
  "admin_count (db s) = 1 \<Longrightarrow> admin_count (db (run d es s)) = 1"
proof (induction es arbitrary: s)
  case Nil
  then show ?case by simp
next
  case (Cons e es)
  from Cons.prems have "admin_count (db (step d e s)) = 1" by (rule admin_count_step_eq)
  then have "admin_count (db (run d es (step d e s))) = 1" by (rule Cons.IH)
  then show ?case by simp
qed

lemma admin_count_boot:
  "admin_count (db s) \<le> 1 \<Longrightarrow> admin_count (db (step d (Boot h) s)) = 1"
  using seed_existing[of "db s" h] seed_absent[of "db s" h]
  by (cases "admin_count (db s) = 0") (simp_all add: boot_def)

text \<open>
  \<^bold>\<open>C5.\<close> On a database with at most one user named \<^verbatim>\<open>admin\<close> (the \<^verbatim>\<open>UNIQUE\<close> constraint
  of the column): when that user exists a boot leaves the table \<^verbatim>\<open>users\<close> as it was, and
  after any sequence of boots and requests that contains at least one boot there is
  exactly one user named \<^verbatim>\<open>admin\<close>.
\<close>

theorem seed_once:
  assumes "admin_count (db s) \<le> 1"
  shows "(admin_count (db s) = 1 \<longrightarrow> users (db (step d (Boot h) s)) = users (db s)) \<and>
         admin_count (db (run d (es @ Boot h # es') s)) = 1"
proof
  show "admin_count (db s) = 1 \<longrightarrow> users (db (step d (Boot h) s)) = users (db s)"
    using seed_existing[of "db s" h] by (simp add: boot_def)
  have "admin_count (db (run d es s)) \<le> 1" using assms by (rule admin_count_run_le)
  then have "admin_count (db (step d (Boot h) (run d es s))) = 1" by (rule admin_count_boot)
  then have "admin_count (db (run d es' (step d (Boot h) (run d es s)))) = 1"
    by (rule admin_count_run_eq)
  then show "admin_count (db (run d (es @ Boot h # es') s)) = 1" by (simp add: run_append)
qed

text \<open>C5 at a concrete input: the seeded server, a login, and two more boots.\<close>

theorem seed_once_witness:
  "admin_count (db seeded) = 1 \<and>
   users (db (step sample_deps (Boot (js ''bcrypt:other'')) seeded)) = users (db seeded) \<and>
   admin_count (db (run sample_deps ([Request login_admin] @ Boot (js ''bcrypt:other'') # [Boot (js ''bcrypt:third'')]) seeded)) = 1"
proof -
  have h: "admin_count (db seeded) = 1" by (simp add: seeded_eq admin_count_def)
  then have h1: "admin_count (db seeded) \<le> 1" by simp
  from seed_once[OF h1, of sample_deps "js ''bcrypt:other''" "[Request login_admin]" "[Boot (js ''bcrypt:third'')]"] h
  show ?thesis by simp
qed


section \<open>The dashboard counts\<close>

text \<open>
  The part of C6 that holds: \<^verbatim>\<open>DashboardView\<close> counts, in the list it is given, the
  inspections whose \<^verbatim>\<open>status\<close> is \<^verbatim>\<open>'pending'\<close>, \<^verbatim>\<open>'completed'\<close> and \<^verbatim>\<open>'urgent'\<close>. The list
  it is given is the state \<^verbatim>\<open>inspections\<close> of the client, and \<^verbatim>\<open>fetchData\<close> writes to that
  state in the view \<^verbatim>\<open>'inspections'\<close> only: after a fetch in that view the dashboard
  shows the counts of the fetched list, and a fetch in the view \<^verbatim>\<open>'dashboard'\<close> changes
  nothing.
\<close>

lemma count_filter: "length (filter (\<lambda>i. f i = v) xs) = count_list (map f xs) v"
  by (induction xs) simp_all

lemma DashboardView_counts:
  "pending (DashboardView xs) = count_list (map (\<lambda>i. get_prop i ''status'') xs) (JStr (js ''pending'')) \<and>
   completed (DashboardView xs) = count_list (map (\<lambda>i. get_prop i ''status'') xs) (JStr (js ''completed'')) \<and>
   urgent (DashboardView xs) = count_list (map (\<lambda>i. get_prop i ''status'') xs) (JStr (js ''urgent''))"
  by (simp add: DashboardView_def count_filter)

lemma fetchData_inspections_view:
  assumes "view st = ListView Inspections" and "fetch Inspections = Some (True, xs)"
  shows "DashboardView (c_inspections (setView Dashboard (fetchData fetch st))) = DashboardView xs"
  using assms by (simp add: fetchData_def setView_def)

lemma fetchData_dashboard_view:
  assumes "view st = Dashboard"
  shows "fetchData fetch st = st"
  using assms by (simp add: fetchData_def split: option.splits prod.splits)

text \<open>
  \<^bold>\<open>C6.\<close> The dashboard is to show, for the list of inspections that was fetched, how
  many of them are pending, completed and urgent. The code breaks this where the
  dashboard is shown first: \<^verbatim>\<open>App\<close> mounts in the view \<^verbatim>\<open>'dashboard'\<close>, \<^verbatim>\<open>fetchData\<close> requests
  \<^verbatim>\<open>/api/inspections\<close> for it and receives four inspections with the statuses pending,
  urgent, completed, pending, whose counts are 2, 1 and 1; none of the four conditions
  of \<^verbatim>\<open>fetchData\<close> holds for that view, the list is dropped, and the dashboard shows
  0, 0 and 0.
\<close>

theorem dashboard_drops_fetched_list:
  "view initial_client = Dashboard \<and>
   fetch_four (endpoints (view initial_client)) = Some (True, four_inspections) \<and>
   DashboardView four_inspections = \<lparr>pending = 2, completed = 1, urgent = 1\<rparr> \<and>
   view (fetchData fetch_four initial_client) = Dashboard \<and>
   DashboardView (c_inspections (fetchData fetch_four initial_client)) =
     \<lparr>pending = 0, completed = 0, urgent = 0\<rparr>"
  by (simp add: initial_client_def fetch_four_def fetchData_def DashboardView_def
      four_inspections_def get_prop_def)


section \<open>Logout\<close>

text \<open>Once the session of a cookie is destroyed, a request with that cookie gets an
  empty session.\<close>

lemma session_destroyed:
  assumes "cookie m = cookie req"
  shows "req_session m (s\<lparr>sessions := (sessions s)(fst (session_of req s) := None)\<rparr>) = empty_session"
  using assms by (auto simp: req_session_def session_of_def split: option.splits)

text \<open>
  \<^bold>\<open>C7.\<close> \<^verbatim>\<open>POST /api/logout\<close> answers \<^verbatim>\<open>{success: true}\<close> with status 200 in every state
  and for every cookie, a stored session or none. After it a \<^verbatim>\<open>GET /api/me\<close> with the
  same cookie is answered with 401. A second logout with that cookie gets the same
  answer and, its newly generated session id not being in the store, leaves the state
  as the first logout left it.
\<close>

theorem logout_destroys_session:
  assumes "route req = PostLogout" and "route m = GetMe" and "cookie m = cookie req"
    and "route req2 = PostLogout" and "cookie req2 = cookie req"
  shows "fst (handle d req s) = reply 200 (json [(''success'', JBool True)]) \<and>
         fst (handle d m (snd (handle d req s))) = reply 401 (json [(''error'', JStr (js ''Not logged in''))]) \<and>
         fst (handle d req2 (snd (handle d req s))) = reply 200 (json [(''success'', JBool True)]) \<and>
         (sessions (snd (handle d req s)) (fresh_sid req2) = None \<longrightarrow>
            snd (handle d req2 (snd (handle d req s))) = snd (handle d req s))"
proof -
  define s' where "s' = s\<lparr>sessions := (sessions s)(fst (session_of req s) := None)\<rparr>"
  have h: "handle d req s = (reply 200 (json [(''success'', JBool True)]), s')"
    unfolding logout_unfold[OF assms(1)] by (simp add: s'_def)
  have e: "req_session m s' = empty_session"
    unfolding s'_def by (rule session_destroyed[OF assms(3)])
  have m: "fst (handle d m s') = reply 401 (json [(''error'', JStr (js ''Not logged in''))])"
    unfolding me_unfold[OF assms(2)] e by (simp add: empty_session_def)
  have e2: "req_session req2 s' = empty_session"
    unfolding s'_def by (rule session_destroyed[OF assms(5)])
  have i2: "fst (session_of req2 s') = fresh_sid req2"
    using assms(5) by (auto simp: s'_def session_of_def split: option.splits)
  have l2: "handle d req2 s' = (reply 200 (json [(''success'', JBool True)]),
        s'\<lparr>sessions := (sessions s')(fresh_sid req2 := None)\<rparr>)"
    unfolding logout_unfold[OF assms(4)] i2 by simp
  have same: "sessions s' (fresh_sid req2) = None \<Longrightarrow> s'\<lparr>sessions := (sessions s')(fresh_sid req2 := None)\<rparr> = s'"
    by (simp add: fun_upd_idem)
  show ?thesis using h m l2 same by simp
qed

text \<open>C7 at a concrete input: the administrator is logged in, \<^verbatim>\<open>GET /api/me\<close> succeeds,
  and then the client logs out twice.\<close>

theorem logout_destroys_session_witness:
  "status (fst (handle sample_deps get_me_7 logged_in)) = 200 \<and>
   fst (handle sample_deps (post_logout_7 11) logged_in) = reply 200 (json [(''success'', JBool True)]) \<and>
   fst (handle sample_deps get_me_7 (snd (handle sample_deps (post_logout_7 11) logged_in))) =
     reply 401 (json [(''error'', JStr (js ''Not logged in''))]) \<and>
   fst (handle sample_deps (post_logout_7 12) (snd (handle sample_deps (post_logout_7 11) logged_in))) =
     reply 200 (json [(''success'', JBool True)]) \<and>
   snd (handle sample_deps (post_logout_7 12) (snd (handle sample_deps (post_logout_7 11) logged_in))) =
     snd (handle sample_deps (post_logout_7 11) logged_in)"
proof -
  have h1: "route (post_logout_7 11) = PostLogout" by (simp add: post_logout_7_def)
  have h2: "route get_me_7 = GetMe" by (simp add: get_me_7_def)
  have h3: "cookie get_me_7 = cookie (post_logout_7 11)" by (simp add: get_me_7_def post_logout_7_def)
  have h4: "route (post_logout_7 12) = PostLogout" by (simp add: post_logout_7_def)
  have h5: "cookie (post_logout_7 12) = cookie (post_logout_7 11)" by (simp add: post_logout_7_def)
  have before: "status (fst (handle sample_deps get_me_7 logged_in)) = 200"
    unfolding me_unfold[OF h2] by (simp add: get_me_7_def session_7 reply_def)
  have free: "sessions (snd (handle sample_deps (post_logout_7 11) logged_in)) (fresh_sid (post_logout_7 12)) = None"
    unfolding logout_unfold[OF h1] by (simp add: logged_in_eq post_logout_7_def session_of_def)
  from logout_destroys_session[OF h1 h2 h3 h4 h5, of sample_deps logged_in] before free show ?thesis by simp
qed


section \<open>What a create stores\<close>

text \<open>The arguments of the \<^verbatim>\<open>INSERT\<close> depend on the domain fields of the body only.\<close>

lemma domain_args_cong:
  assumes "\<forall>c\<in>set (columns R). b' (fst c) = b (fst c)"
  shows "domain_args R b' = domain_args R b"
  using assms by (simp add: domain_args_def get_prop_def)

text \<open>
  \<^bold>\<open>C8.\<close> For every resource \<open>R\<close>, two bodies that agree on the domain fields of \<open>R\<close> get
  the same answer and leave the same state, so any other key of the body, such as
  \<^verbatim>\<open>user_id\<close>, \<^verbatim>\<open>id\<close> or \<^verbatim>\<open>created_at\<close>, has no effect. When the create succeeds the
  appended row carries the \<^verbatim>\<open>userId\<close> of the session as \<^verbatim>\<open>user_id\<close>, the next rowid of
  the table as \<^verbatim>\<open>id\<close>, and the clock reading of the request as \<^verbatim>\<open>created_at\<close>.
\<close>

theorem create_ignores_extra_keys:
  assumes "route req = PostCreate R"
    and "\<forall>c\<in>set (columns R). b' (fst c) = body req (fst c)"
  shows "handle d (req\<lparr>body := b'\<rparr>) s = handle d req s \<and>
     (status (fst (handle d req s)) = 200 \<longrightarrow>
        (\<exists>u r. userId (req_session req s) = Some u \<and>
           t_rows (table_of R (db (snd (handle d req s)))) = t_rows (table_of R (db s)) @ [r] \<and>
           r_user_id r = SNum (real u) \<and>
           r_id r = Suc (high_water (table_of R (db s))) \<and>
           r_created_at r = now req))"
proof
  have rt: "route (req\<lparr>body := b'\<rparr>) = PostCreate R" using assms(1) by simp
  have sess: "req_session (req\<lparr>body := b'\<rparr>) s = req_session req s"
    by (rule req_session_cong) simp_all
  show "handle d (req\<lparr>body := b'\<rparr>) s = handle d req s"
    unfolding create_unfold[OF rt] create_unfold[OF assms(1)] sess
    using domain_args_cong[OF assms(2)] by (simp cong: option.case_cong if_cong)
next
  show "status (fst (handle d req s)) = 200 \<longrightarrow>
        (\<exists>u r. userId (req_session req s) = Some u \<and>
           t_rows (table_of R (db (snd (handle d req s)))) = t_rows (table_of R (db s)) @ [r] \<and>
           r_user_id r = SNum (real u) \<and>
           r_id r = Suc (high_water (table_of R (db s))) \<and>
           r_created_at r = now req)"
  proof
    assume ok: "status (fst (handle d req s)) = 200"
    then obtain u i t where u: "userId (req_session req s) = Some u"
      and ins: "insert_row d (map snd (columns R)) (JNum (real u) # domain_args R (body req))
             (now req) (table_of R (db s)) = Some (i, t)"
      and st: "snd (handle d req s) = s\<lparr>db := set_table R t (db s)\<rparr>"
      unfolding create_unfold[OF assms(1)]
      by (auto simp: reply_def server_error_def split: option.splits if_splits)
    from insert_row_Some[OF ins] obtain r where
      i: "i = Suc (high_water (table_of R (db s)))"
      and t: "t = \<lparr>t_rows = t_rows (table_of R (db s)) @ [r], t_seq = i\<rparr>"
      and r: "r_id r = i" "r_created_at r = now req" by blast
    have "r_user_id r = SNum (real u)" using insert_row_user_id[OF ins] t by simp
    then show "\<exists>u r. userId (req_session req s) = Some u \<and>
           t_rows (table_of R (db (snd (handle d req s)))) = t_rows (table_of R (db s)) @ [r] \<and>
           r_user_id r = SNum (real u) \<and>
           r_id r = Suc (high_water (table_of R (db s))) \<and>
           r_created_at r = now req"
      using u st t i r by auto
  qed
qed

text \<open>C8 at a concrete input: a body that also names \<^verbatim>\<open>user_id\<close>, \<^verbatim>\<open>id\<close> and
  \<^verbatim>\<open>created_at\<close>.\<close>

theorem create_ignores_extra_keys_witness:
  "handle sample_deps
     ((post_inspection (Some 7) inspection_fields 200)
        \<lparr>body := inspection_fields(''user_id'' \<mapsto> JNum 999, ''id'' \<mapsto> JNum 555,
                   ''created_at'' \<mapsto> JStr (js ''1999-01-01 00:00:00''))\<rparr>) logged_in =
   handle sample_deps (post_inspection (Some 7) inspection_fields 200) logged_in \<and>
   status (fst (handle sample_deps (post_inspection (Some 7) inspection_fields 200) logged_in)) = 200 \<and>
   (\<exists>r. t_rows (table_of Inspections (db (snd (handle sample_deps
            (post_inspection (Some 7) inspection_fields 200) logged_in)))) =
          t_rows (table_of Inspections (db logged_in)) @ [r] \<and>
        r_user_id r = SNum 1 \<and> r_id r = 1 \<and> r_created_at r = 200)"
proof -
  let ?b = "inspection_fields(''user_id'' \<mapsto> JNum 999, ''id'' \<mapsto> JNum 555, ''created_at'' \<mapsto> JStr (js ''1999-01-01 00:00:00''))"
  let ?req = "post_inspection (Some 7) inspection_fields 200"
  have h1: "route ?req = PostCreate Inspections" by (simp add: post_inspection_def)
  have h2: "\<forall>c\<in>set (columns Inspections). ?b (fst c) = body ?req (fst c)"
    by (simp add: post_inspection_def)
  have ok: "status (fst (handle sample_deps ?req logged_in)) = 200"
    by (simp add: first_post reply_def)
  have u: "userId (req_session ?req logged_in) = Some 1" by (simp add: post_inspection_def session_7)
  have hw: "high_water (table_of Inspections (db logged_in)) = 0"
    by (simp add: logged_in_eq seeded_eq high_water_def empty_table_def)
  have nw: "now ?req = 200" by (simp add: post_inspection_def)
  from create_ignores_extra_keys[OF h1 h2, of sample_deps logged_in]
  have eq: "handle sample_deps (?req\<lparr>body := ?b\<rparr>) logged_in = handle sample_deps ?req logged_in"
    and imp: "status (fst (handle sample_deps ?req logged_in)) = 200 \<longrightarrow>
        (\<exists>u r. userId (req_session ?req logged_in) = Some u \<and>
           t_rows (table_of Inspections (db (snd (handle sample_deps ?req logged_in)))) =
             t_rows (table_of Inspections (db logged_in)) @ [r] \<and>
           r_user_id r = SNum (real u) \<and>
           r_id r = Suc (high_water (table_of Inspections (db logged_in))) \<and>
           r_created_at r = now ?req)"
    by blast+
  from imp ok obtain v r where "userId (req_session ?req logged_in) = Some v"
    "t_rows (table_of Inspections (db (snd (handle sample_deps ?req logged_in)))) =
             t_rows (table_of Inspections (db logged_in)) @ [r]"
    "r_user_id r = SNum (real v)" "r_id r = Suc (high_water (table_of Inspections (db logged_in)))"
    "r_created_at r = now ?req" by blast
  with u hw nw have "\<exists>r. t_rows (table_of Inspections (db (snd (handle sample_deps ?req logged_in)))) =
          t_rows (table_of Inspections (db logged_in)) @ [r] \<and>
        r_user_id r = SNum 1 \<and> r_id r = 1 \<and> r_created_at r = 200"
    by auto
  with eq ok show ?thesis by blast
qed


section \<open>The bodies of the authentication routes\<close>











section \<open>Generated ids\<close>

text \<open>No request and no boot lowers the largest rowid a table ever held.\<close>

lemma high_water_handle:
  "high_water (table_of R (db s)) \<le> high_water (table_of R (db (snd (handle d req s))))"
proof (cases "\<exists>R'. route req = PostCreate R'")
  case False
  then show ?thesis using db_handle_other[of req d s] by simp
next
  case True
  then obtain R' where r: "route req = PostCreate R'" by blast
  from create_state[OF r, of d s] show ?thesis
  proof
    assume "snd (handle d req s) = s"
    then show ?thesis by simp
  next
    assume "\<exists>u i t. insert_row d (map snd (columns R')) (JNum (real u) # domain_args R' (body req))
             (now req) (table_of R' (db s)) = Some (i, t) \<and>
           snd (handle d req s) = s\<lparr>db := set_table R' t (db s)\<rparr>"
    then obtain u i t where
      ins: "insert_row d (map snd (columns R')) (JNum (real u) # domain_args R' (body req))
             (now req) (table_of R' (db s)) = Some (i, t)"
      and st: "snd (handle d req s) = s\<lparr>db := set_table R' t (db s)\<rparr>" by blast
    have hw: "high_water t = Suc (high_water (table_of R' (db s)))"
      using high_water_insert[OF ins] insert_row_Some[OF ins] by simp
    show ?thesis
    proof (cases "R = R'")
      case True
      then show ?thesis using st hw by simp
    next
      case False
      then show ?thesis using st by (simp add: table_of_set_table_other)
    qed
  qed
qed

lemma high_water_step:
  "high_water (table_of R (db s)) \<le> high_water (table_of R (db (step d e s)))"
  by (cases e) (simp_all add: boot_def high_water_handle)

lemma high_water_run:
  "high_water (table_of R (db s)) \<le> high_water (table_of R (db (run d es s)))"
proof (induction es arbitrary: s)
  case Nil
  show ?case by simp
next
  case (Cons e es)
  show ?case using high_water_step[of R s d e] Cons[of "step d e s"] by simp
qed

text \<open>
  \<^bold>\<open>C10.\<close> For every resource \<open>R\<close>: when a create on \<open>R\<close> returns id \<open>i\<close>, and after any
  sequence of boots and requests another create on \<open>R\<close> returns id \<open>j\<close>, then \<open>i < j\<close>.
\<close>

theorem created_ids_increase:
  assumes "route a = PostCreate R" and "route b = PostCreate R"
    and "fst (handle d a s) = reply 200 (json [(''id'', JNum (real i))])"
    and "fst (handle d b (run d es (snd (handle d a s)))) = reply 200 (json [(''id'', JNum (real j))])"
  shows "i < j"
proof -
  from create_success[OF assms(1,3)] obtain u t where
    ins: "insert_row d (map snd (columns R)) (JNum (real u) # domain_args R (body a))
             (now a) (table_of R (db s)) = Some (i, t)"
    and s1: "snd (handle d a s) = s\<lparr>db := set_table R t (db s)\<rparr>" by blast
  have "high_water (table_of R (db (snd (handle d a s)))) = i"
    using high_water_insert[OF ins] s1 by simp
  then have le: "i \<le> high_water (table_of R (db (run d es (snd (handle d a s)))))"
    using high_water_run[of R "snd (handle d a s)" d es] by simp
  from create_success[OF assms(2,4)] obtain u' t' where
    "insert_row d (map snd (columns R)) (JNum (real u') # domain_args R (body b))
             (now b) (table_of R (db (run d es (snd (handle d a s))))) = Some (j, t')" by blast
  from insert_row_Some[OF this] have "j = Suc (high_water (table_of R (db (run d es (snd (handle d a s))))))"
    by simp
  with le show ?thesis by simp
qed

text \<open>C10 at a concrete input: two creates with a listing between them return 1 and 2.\<close>

theorem created_ids_increase_witness:
  "fst (handle sample_deps (post_inspection (Some 7) inspection_fields 200) logged_in) =
     reply 200 (json [(''id'', JNum (real 1))]) \<and>
   fst (handle sample_deps (post_inspection (Some 7) inspection_fields 200)
          (run sample_deps [Request list_inspections]
             (snd (handle sample_deps (post_inspection (Some 7) inspection_fields 200) logged_in)))) =
     reply 200 (json [(''id'', JNum (real 2))]) \<and> (1::nat) < 2"
proof -
  let ?a = "post_inspection (Some 7) inspection_fields 200"
  have h1: "route ?a = PostCreate Inspections" by (simp add: post_inspection_def)
  have s1: "snd (handle sample_deps ?a logged_in) = one_inspection" by (simp add: one_inspection_def)
  have h3: "fst (handle sample_deps ?a logged_in) = reply 200 (json [(''id'', JNum (real 1))])"
    by (simp add: first_post)
  have l: "route list_inspections = GetList Inspections" by (simp add: list_inspections_def)
  have s2: "run sample_deps [Request list_inspections] one_inspection = one_inspection"
    by (simp add: list_unfold[OF l] split: option.splits)
  have u: "userId (req_session ?a one_inspection) = Some 1"
    by (simp add: one_inspection_eq logged_in_eq req_session_def session_of_def post_inspection_def)
  have h4: "fst (handle sample_deps ?a (run sample_deps [Request list_inspections]
             (snd (handle sample_deps ?a logged_in)))) = reply 200 (json [(''id'', JNum (real 2))])"
    unfolding s1 s2 by (simp add: second_post)
  from created_ids_increase[OF h1 h1 h3 h4] h3 h4 show ?thesis by simp
qed

end
